theory Spec2Isabelle
  imports Main "HOL-Library.AList"
begin

section \<open>Effect inference of the TNT toolchain: the data model\<close>

text \<open>
  The embedded code is the effect inferrer: the class \<open>EffectInferrerVisitor\<close> and the entry
  point \<open>inferEffects\<close>.
\<close>

text \<open>
  Modelled from the spec: the type declarations of effects, substitutions, error trees, name
  definitions and the IR are in files that are not among the sources. The datatypes follow
  the data model of the spec and the object literals and field reads of the inferrer's code
  (\<open>{ kind: 'concrete', read: { kind: 'concrete', vars: [expr.name] }, ... }\<close>,
  \<open>{ kind: 'quantified', name }\<close>, \<open>{ kind: 'arrow', params, result }\<close>,
  \<open>{ kind, name, value }\<close>, \<open>{ message, location, children }\<close>, \<open>def.kind\<close>,
  \<open>def.reference\<close>, \<open>expr.opcode\<close>, \<open>expr.args\<close>, \<open>e.params\<close>, \<open>e.expr\<close>, \<open>def.module\<close>).
  A set of variables is the array \<open>vars\<close> of the code.
\<close>

datatype variables =
    ConcreteVariables "string list"
  | QuantifiedVariables string

datatype effect =
    Concrete variables variables variables
  | Quantified string
  | Arrow "effect list" effect

text \<open>\<open>emptyVariables\<close>: the constant \<open>{ kind: 'concrete', vars: [] }\<close>.\<close>

definition emptyVariables :: variables where
  "emptyVariables = ConcreteVariables []"

text \<open>
  A binding of a substitution, \<open>{ kind, name, value }\<close>: the kind says whether the name stands
  for an effect or for a set of variables.
\<close>

datatype substitution =
    EffectBinding string effect
  | VariableBinding string variables

type_synonym substitutions = "substitution list"

fun bindingName :: "substitution \<Rightarrow> string" where
  "bindingName (EffectBinding n _) = n"
| "bindingName (VariableBinding n _) = n"

text \<open>The entries of \<open>effectNames\<close>: \<open>{ kind: 'effect' | 'variable', name }\<close>.\<close>

datatype nameKind = EffectName | VariableName

text \<open>\<open>ErrorTree\<close>: \<open>{ message?, location, children }\<close>.\<close>

datatype errorTree = ErrorTree "string option" string "errorTree list"

text \<open>
  A definition of the lookup table, as the inferrer reads it: its kind (\<open>'param'\<close>,
  \<open>'const'\<close>, \<open>'var'\<close>, or anything else) and its optional reference.
\<close>

record nameDefinition =
  kind :: string
  defIdentifier :: string
  reference :: "int option"

text \<open>
  The IR. Expressions are names, literals, applications, lambdas and let-ins; definitions are
  operator definitions, nested modules, and definitions the inferrer has no callback for.
\<close>

datatype tntEx =
    TntName int string
  | TntBool int bool
  | TntInt int int
  | TntStr int string
  | TntApp int string "tntEx list"
  | TntLambda int "string list" tntEx
  | TntLet int tntDef tntEx
and tntDef =
    TntOpDef int string tntEx
  | TntModuleDef int tntModule
  | TntOtherDef int
and tntModule =
    TntModule int string "tntDef list"

fun exId :: "tntEx \<Rightarrow> int" where
  "exId (TntName i _) = i"
| "exId (TntBool i _) = i"
| "exId (TntInt i _) = i"
| "exId (TntStr i _) = i"
| "exId (TntApp i _ _) = i"
| "exId (TntLambda i _ _) = i"
| "exId (TntLet i _ _) = i"

fun moduleName :: "tntModule \<Rightarrow> string" where
  "moduleName (TntModule _ n _) = n"

subsection \<open>Thrown errors\<close>

text \<open>
  Every \<open>throw\<close> of the inferrer is a value of \<open>fatal\<close>. \<open>TypeError\<close> is what JavaScript throws
  when a collaborator dereferences \<open>undefined\<close>: the inferrer reads maps through non-null
  assertions (\<open>get(..)!\<close>), which check nothing at run time.
\<close>

datatype fatal =
    DefinitionNotFound string
  | ParamEffectNotFound string
  | SignatureNotFound string
  | FreshNamesError errorTree
  | TypeError

subsection \<open>Numbers in template strings\<close>

text \<open>
  The template strings \<open>${prefix}${counter}\<close> and \<open>e_${p}_${e.id}\<close> print a number in
  decimal. \<open>showNat\<close> only asks \<open>digitChar\<close> for digits below 10.
\<close>

definition digitChar :: "nat \<Rightarrow> char" where
  "digitChar d = ''0123456789'' ! d"

function showNat :: "nat \<Rightarrow> string" where
  "showNat n = (if n < 10 then [digitChar n] else showNat (n div 10) @ [digitChar (n mod 10)])"
  by pat_completeness auto
termination
  by (relation "measure (\<lambda>n. n)") auto

declare showNat.simps [simp del]

definition showInt :: "int \<Rightarrow> string" where
  "showInt i = (if i < 0 then CHR ''-'' # showNat (nat (- i)) else showNat (nat i))"

fun startsWith :: "string \<Rightarrow> string \<Rightarrow> bool" where
  "startsWith s [] = True"
| "startsWith [] (p # ps) = False"
| "startsWith (c # cs) (p # ps) = (c = p \<and> startsWith cs ps)"

section \<open>The collaborators of the inferrer\<close>

text \<open>
  The inferrer imports functions whose code is in other files of the repository: the
  name-resolution lookup, the scope tree of a module, unification, and the substitution
  engine. They are parameters of the embedding, so every theorem below holds for every
  implementation of them. \<open>ScopeTree\<close> is the shape of the initial
  \<open>{ value: 0n, children: [] }\<close>; the type of lookup tables stays abstract.
\<close>

datatype scopeTree = ScopeTree int "scopeTree list"

record 'tbl collaborators =
  lookupValue :: "'tbl \<Rightarrow> scopeTree \<Rightarrow> string \<Rightarrow> int \<Rightarrow> nameDefinition option"
  newTable :: "'tbl"
  treeFromModule :: "tntModule \<Rightarrow> scopeTree"
  unify :: "effect \<Rightarrow> effect \<Rightarrow> errorTree + substitutions"
  applySubstitution :: "substitutions \<Rightarrow> effect \<Rightarrow> errorTree + effect"
  compose :: "substitutions \<Rightarrow> substitutions \<Rightarrow> errorTree + substitutions"
  effectNames :: "effect \<Rightarrow> (nameKind \<times> string) list"
  expressionToString :: "tntEx \<Rightarrow> string"

section \<open>The visitor\<close>

text \<open>
  The fields of \<open>EffectInferrerVisitor\<close>. A JavaScript \<open>Map\<close> is an association list in
  insertion order: \<open>set\<close> is \<open>AList.update\<close> (an existing key keeps its place, a new key
  goes last), \<open>has\<close> and \<open>get\<close> read it with \<open>map_of\<close>, and \<open>size > 0\<close> is \<open>\<noteq> []\<close>.
  A value of \<open>effects\<close> is an \<open>effect option\<close>: \<open>exitLet\<close> and \<open>exitName\<close> store what
  \<open>get(..)!\<close> returned, which is \<open>undefined\<close> (here \<open>None\<close>) for a missing key.
\<close>

record 'tbl visitor =
  effects :: "(int \<times> effect option) list"
  errors :: "(int \<times> errorTree) list"
  builtinSignatures :: "string \<Rightarrow> (nat \<Rightarrow> effect) option"
  lookupTable :: "string \<Rightarrow> 'tbl option"
  freshVarCounters :: "(string \<times> nat) list"
  currentModule :: "tntModule option"
  currentTable :: "'tbl option"
  currentScopeTree :: scopeTree
  moduleStack :: "tntModule list"
  substitutions :: substitutions

definition newVisitor ::
  "'tbl collaborators \<Rightarrow> (string \<Rightarrow> (nat \<Rightarrow> effect) option) \<Rightarrow> (string \<Rightarrow> 'tbl option) \<Rightarrow> 'tbl visitor" where
  "newVisitor d sigs tables =
     \<lparr> effects = [], errors = [], builtinSignatures = sigs, lookupTable = tables,
       freshVarCounters = [], currentModule = None, currentTable = Some (newTable d),
       currentScopeTree = ScopeTree 0 [], moduleStack = [], substitutions = [] \<rparr>"

text \<open>\<open>effects.has(id)\<close> and \<open>effects.get(id)\<close>.\<close>

definition hasEffect :: "(int \<times> effect option) list \<Rightarrow> int \<Rightarrow> bool" where
  "hasEffect m i = (map_of m i \<noteq> None)"

definition getEffect :: "(int \<times> effect option) list \<Rightarrow> int \<Rightarrow> effect option" where
  "getEffect m i = (case map_of m i of None \<Rightarrow> None | Some v \<Rightarrow> v)"

text \<open>
  \<open>if (id)\<close> and \<open>!id\<close> on an optional bigint: \<open>undefined\<close> and \<open>0n\<close> are falsy, every other
  id is truthy. The result is the id when it is truthy.
\<close>

definition truthyId :: "int option \<Rightarrow> int option" where
  "truthyId r = (case r of None \<Rightarrow> None | Some i \<Rightarrow> if i = 0 then None else Some i)"

text \<open>\<open>lookupValue(..)?.reference\<close>.\<close>

definition referenceOf :: "nameDefinition option \<Rightarrow> int option" where
  "referenceOf def = (case def of None \<Rightarrow> None | Some df \<Rightarrow> reference df)"

text \<open>
  \<open>lookupValue(this.currentTable, this.currentScopeTree, name, id)\<close>. The current table is
  \<open>undefined\<close> after \<open>updateCurrentModule\<close> found no table for the module's name; a lookup
  in it throws a \<open>TypeError\<close>.
\<close>

definition lookupCurrent ::
  "'tbl collaborators \<Rightarrow> 'tbl visitor \<Rightarrow> string \<Rightarrow> int \<Rightarrow> fatal + nameDefinition option" where
  "lookupCurrent d v name scope =
     (case currentTable v of
        None \<Rightarrow> Inl TypeError
      | Some t \<Rightarrow> Inr (lookupValue d t (currentScopeTree v) name scope))"

subsection \<open>Modules\<close>

definition updateCurrentModule :: "'tbl collaborators \<Rightarrow> 'tbl visitor \<Rightarrow> 'tbl visitor" where
  "updateCurrentModule d v =
     (if moduleStack v \<noteq> [] then
        let m = last (moduleStack v) in
        v\<lparr> currentModule := Some m,
           currentTable := lookupTable v (moduleName m),
           currentScopeTree := treeFromModule d m \<rparr>
      else v)"

definition enterModuleDef :: "'tbl collaborators \<Rightarrow> tntModule \<Rightarrow> 'tbl visitor \<Rightarrow> 'tbl visitor" where
  "enterModuleDef d m v = updateCurrentModule d (v\<lparr> moduleStack := moduleStack v @ [m] \<rparr>)"

definition exitModuleDef :: "'tbl collaborators \<Rightarrow> 'tbl visitor \<Rightarrow> 'tbl visitor" where
  "exitModuleDef d v = updateCurrentModule d (v\<lparr> moduleStack := butlast (moduleStack v) \<rparr>)"

subsection \<open>Fresh names and fresh instances\<close>

text \<open>
  \<open>freshVar\<close>: the counter of the prefix (0 when the prefix is new) is appended to the
  prefix, and the counter is stored incremented. The counter is a JavaScript number; it is
  modelled as a natural number (below \<open>2^53\<close> the two agree). \<open>currentCounter\<close> is the
  read \<open>this.freshVarCounters.get(prefix)! ?? 0\<close>.
\<close>

definition currentCounter :: "'tbl visitor \<Rightarrow> string \<Rightarrow> nat" where
  "currentCounter v prefix =
     (case map_of (freshVarCounters v) prefix of None \<Rightarrow> 0 | Some c \<Rightarrow> c)"

definition freshVar :: "string \<Rightarrow> 'tbl visitor \<Rightarrow> string \<times> 'tbl visitor" where
  "freshVar prefix v =
     (let counter = currentCounter v prefix in
      (prefix @ showNat counter,
       v\<lparr> freshVarCounters := AList.update prefix (counter + 1) (freshVarCounters v) \<rparr>))"

text \<open>
  The binding \<open>{ kind: name.kind, name: name.name, value: { kind: 'quantified', name: fresh } }\<close>.
\<close>

fun freshBinding :: "nameKind \<times> string \<Rightarrow> string \<Rightarrow> substitution" where
  "freshBinding (EffectName, n) x = EffectBinding n (Quantified x)"
| "freshBinding (VariableName, n) x = VariableBinding n (QuantifiedVariables x)"

text \<open>\<open>names.map(name => ... this.freshVar('v') ...)\<close>: one fresh name per entry, in order.\<close>

fun freshSubs :: "(nameKind \<times> string) list \<Rightarrow> 'tbl visitor \<Rightarrow> substitutions \<times> 'tbl visitor" where
  "freshSubs [] v = ([], v)"
| "freshSubs (n # ns) v =
     (case freshVar ''v'' v of (x, v1) \<Rightarrow>
        (case freshSubs ns v1 of (ss, v2) \<Rightarrow> (freshBinding n x # ss, v2)))"

text \<open>The filter of \<open>newInstance\<close>: \<open>s.name.startsWith('e_')\<close>.\<close>

definition lambdaIntroduced :: "substitution \<Rightarrow> bool" where
  "lambdaIntroduced s = startsWith (bindingName s) ''e_''"

definition newInstance ::
  "'tbl collaborators \<Rightarrow> effect \<Rightarrow> 'tbl visitor \<Rightarrow> fatal + (effect \<times> 'tbl visitor)" where
  "newInstance d eff v =
     (case freshSubs (effectNames d eff) v of (subs, v1) \<Rightarrow>
        let v2 = (case compose d (filter lambdaIntroduced subs) (substitutions v1) of
                    Inr s \<Rightarrow> v1\<lparr> substitutions := s \<rparr>
                  | Inl _ \<Rightarrow> v1)
        in (case applySubstitution d subs eff of
              Inl err \<Rightarrow> Inl (FreshNamesError err)
            | Inr r \<Rightarrow> Inr (r, v2)))"

text \<open>
  \<open>fetchSignature\<close> returns an \<open>Either<string, Effect>\<close> or throws. The effect read from
  \<open>effects\<close> may be \<open>undefined\<close> (the key is there, its value is not); \<open>newInstance\<close> hands it to
  \<open>effectNames\<close>, which throws a \<open>TypeError\<close> on it.
\<close>

definition fetchSignature ::
  "'tbl collaborators \<Rightarrow> string \<Rightarrow> int \<Rightarrow> nat \<Rightarrow> 'tbl visitor
     \<Rightarrow> fatal + ((string + effect) \<times> 'tbl visitor)" where
  "fetchSignature d opcode scope arity v =
     (let found =
        (case builtinSignatures v opcode of
           Some signatureFunction \<Rightarrow> Inr (Some (signatureFunction arity))
         | None \<Rightarrow>
             (case lookupCurrent d v opcode scope of
                Inl f \<Rightarrow> Inl f
              | Inr def \<Rightarrow>
                  (case truthyId (referenceOf def) of
                     None \<Rightarrow> Inl (SignatureNotFound opcode)
                   | Some i \<Rightarrow>
                       if \<not> hasEffect (effects v) i then Inl (SignatureNotFound opcode)
                       else Inr (getEffect (effects v) i))))
      in (case found of
            Inl f \<Rightarrow> Inl f
          | Inr None \<Rightarrow> Inl TypeError
          | Inr (Some eff) \<Rightarrow>
              (case newInstance d eff v of
                 Inl f \<Rightarrow> Inl f
               | Inr (r, v') \<Rightarrow> Inr (Inr r, v'))))"

section \<open>The callbacks of the visitor\<close>

text \<open>\<open>Either.chain\<close> and \<open>mergeInMany\<close> of the Either library.\<close>

definition chain :: "'l + 'a \<Rightarrow> ('a \<Rightarrow> 'l + 'b) \<Rightarrow> 'l + 'b" where
  "chain x f = (case x of Inl e \<Rightarrow> Inl e | Inr a \<Rightarrow> f a)"

fun mergeInMany :: "('l + 'r) list \<Rightarrow> 'l list + 'r list" where
  "mergeInMany [] = Inr []"
| "mergeInMany (Inr r # xs) =
     (case mergeInMany xs of Inl es \<Rightarrow> Inl es | Inr rs \<Rightarrow> Inr (r # rs))"
| "mergeInMany (Inl e # xs) =
     (case mergeInMany xs of Inl es \<Rightarrow> Inl (e # es) | Inr rs \<Rightarrow> Inl [e])"

definition pureEffect :: effect where
  "pureEffect = Concrete emptyVariables emptyVariables emptyVariables"

definition exitName ::
  "'tbl collaborators \<Rightarrow> int \<Rightarrow> string \<Rightarrow> 'tbl visitor \<Rightarrow> fatal + 'tbl visitor" where
  "exitName d i name v =
     (case lookupCurrent d v name i of
        Inl f \<Rightarrow> Inl f
      | Inr None \<Rightarrow> Inl (DefinitionNotFound name)
      | Inr (Some def) \<Rightarrow>
          if kind def = ''param'' then
            (case truthyId (reference def) of
               None \<Rightarrow> Inl (ParamEffectNotFound name)
             | Some r \<Rightarrow>
                 if \<not> hasEffect (effects v) r then Inl (ParamEffectNotFound name)
                 else Inr (v\<lparr> effects := AList.update i (getEffect (effects v) r) (effects v) \<rparr>))
          else if kind def = ''const'' then
            Inr (v\<lparr> effects := AList.update i (Some pureEffect) (effects v) \<rparr>)
          else if kind def = ''var'' then
            Inr (v\<lparr> effects :=
                   AList.update i
                     (Some (Concrete (ConcreteVariables [name]) emptyVariables emptyVariables))
                     (effects v) \<rparr>)
          else
            (case fetchSignature d name i 2 v of
               Inl f \<Rightarrow> Inl f
             | Inr (Inl m, v1) \<Rightarrow> Inr v1
             | Inr (Inr s, v1) \<Rightarrow> Inr (v1\<lparr> effects := AList.update i (Some s) (effects v1) \<rparr>)))"

text \<open>
  The loop of \<open>exitApp\<close> over the stored effects: an entry is replaced when the substitution
  applies to it, and kept when it does not.
\<close>

definition rewriteEffect ::
  "'tbl collaborators \<Rightarrow> substitutions \<Rightarrow> int \<times> effect option \<Rightarrow> int \<times> effect option" where
  "rewriteEffect d s entry =
     (case entry of
        (i, Some e) \<Rightarrow> (case applySubstitution d s e of Inr e' \<Rightarrow> (i, Some e') | Inl _ \<Rightarrow> (i, Some e))
      | (i, None) \<Rightarrow> (i, None))"

definition applicationLocation :: "'tbl collaborators \<Rightarrow> tntEx \<Rightarrow> string" where
  "applicationLocation d expr =
     ''Trying to infer effect for operator application in '' @ expressionToString d expr"

text \<open>
  \<open>exitApp\<close>. Two places hand a possibly \<open>undefined\<close> effect to a collaborator, which throws
  a \<open>TypeError\<close> when it reads it: the parameters of the candidate arrow (given to \<open>unify\<close>)
  and the stored effects of the loop (given to \<open>applySubstitution\<close>).
\<close>

definition exitApp ::
  "'tbl collaborators \<Rightarrow> int \<Rightarrow> string \<Rightarrow> tntEx list \<Rightarrow> 'tbl visitor \<Rightarrow> fatal + 'tbl visitor" where
  "exitApp d i opcode args v =
     (if errors v \<noteq> [] then Inr v
      else
        let location = applicationLocation d (TntApp i opcode args) in
        (case fetchSignature d opcode i (length args) v of
           Inl f \<Rightarrow> Inl f
         | Inr (Inl m, v1) \<Rightarrow>
             Inr (v1\<lparr> errors := AList.update i (ErrorTree (Some m) location []) (errors v1) \<rparr>)
         | Inr (Inr signature, v1) \<Rightarrow>
             (case freshVar ''e'' v1 of (x, v2) \<Rightarrow>
                let resultEffect = Quantified x in
                (case those (map (\<lambda>a. getEffect (effects v2) (exId a)) args) of
                   None \<Rightarrow> Inl TypeError
                 | Some params \<Rightarrow>
                     (case chain (unify d signature (Arrow params resultEffect))
                             (\<lambda>s. compose d s (substitutions v2)) of
                        Inl err \<Rightarrow>
                          Inr (v2\<lparr> errors := AList.update i (ErrorTree None location [err]) (errors v2) \<rparr>)
                      | Inr s \<Rightarrow>
                          if list_ex (\<lambda>entry. snd entry = None) (effects v2) then Inl TypeError
                          else
                            let v3 = v2\<lparr> substitutions := s,
                                         effects := map (rewriteEffect d s) (effects v2) \<rparr> in
                            (case applySubstitution d s resultEffect of
                               Inl err \<Rightarrow>
                                 Inr (v3\<lparr> errors :=
                                         AList.update i (ErrorTree None location [err]) (errors v3) \<rparr>)
                             | Inr e \<Rightarrow>
                                 Inr (v3\<lparr> effects := AList.update i (Some e) (effects v3) \<rparr>)))))))"

definition exitLiteral :: "int \<Rightarrow> 'tbl visitor \<Rightarrow> 'tbl visitor" where
  "exitLiteral i v = v\<lparr> effects := AList.update i (Some pureEffect) (effects v) \<rparr>"

text \<open>
  \<open>exitOpDef\<close>: without an effect for the body the errors are printed to the console and
  nothing is stored.
\<close>

definition exitOpDef :: "int \<Rightarrow> tntEx \<Rightarrow> 'tbl visitor \<Rightarrow> 'tbl visitor" where
  "exitOpDef i body v =
     (case getEffect (effects v) (exId body) of
        None \<Rightarrow> v
      | Some e \<Rightarrow> v\<lparr> effects := AList.update i (Some e) (effects v) \<rparr>)"

definition exitLet :: "int \<Rightarrow> tntEx \<Rightarrow> 'tbl visitor \<Rightarrow> 'tbl visitor" where
  "exitLet i body v =
     (if errors v \<noteq> [] then v
      else v\<lparr> effects := AList.update i (getEffect (effects v) (exId body)) (effects v) \<rparr>)"

text \<open>The name of the effect variable of a lambda parameter: \<open>e_${p}_${e.id}\<close>.\<close>

definition paramEffectName :: "string \<Rightarrow> int \<Rightarrow> string" where
  "paramEffectName p i = ''e_'' @ p @ ''_'' @ showInt i"

definition enterLambdaParam ::
  "'tbl collaborators \<Rightarrow> int \<Rightarrow> tntEx \<Rightarrow> string \<Rightarrow> 'tbl visitor \<Rightarrow> fatal + 'tbl visitor" where
  "enterLambdaParam d i body p v =
     (case lookupCurrent d v p (exId body) of
        Inl f \<Rightarrow> Inl f
      | Inr def \<Rightarrow>
          (case truthyId (referenceOf def) of
             None \<Rightarrow> Inr v
           | Some r \<Rightarrow>
               Inr (v\<lparr> effects :=
                      AList.update r (Some (Quantified (paramEffectName p i))) (effects v) \<rparr>)))"

fun enterLambda ::
  "'tbl collaborators \<Rightarrow> int \<Rightarrow> string list \<Rightarrow> tntEx \<Rightarrow> 'tbl visitor \<Rightarrow> fatal + 'tbl visitor" where
  "enterLambda d i [] body v = Inr v"
| "enterLambda d i (p # ps) body v =
     (case enterLambdaParam d i body p v of
        Inl f \<Rightarrow> Inl f
      | Inr v1 \<Rightarrow> enterLambda d i ps body v1)"

definition exitLambda ::
  "'tbl collaborators \<Rightarrow> int \<Rightarrow> string list \<Rightarrow> tntEx \<Rightarrow> 'tbl visitor \<Rightarrow> 'tbl visitor" where
  "exitLambda d i ps body v =
     (case getEffect (effects v) (exId body) of
        None \<Rightarrow> v
      | Some resultEffect \<Rightarrow>
          (case mergeInMany
                  (map (\<lambda>p. applySubstitution d (substitutions v) (Quantified (paramEffectName p i))) ps) of
             Inl _ \<Rightarrow> v
           | Inr params \<Rightarrow> v\<lparr> effects := AList.update i (Some (Arrow params resultEffect)) (effects v) \<rparr>))"

section \<open>The traversal and the entry point\<close>

text \<open>
  Modelled from the spec: \<open>walkModule\<close> (the file \<open>IRVisitor\<close>) is not among the sources. The
  spec has one depth-first traversal, children before their parent and siblings from left
  to right, with a callback on entering a lambda or a module and one on leaving every node.
  The traversal is the list of the visitor's callbacks in the order they are called. The
  module given to \<open>walkModule\<close> is entered and left like a nested one: entering a module is
  the only place where the visitor takes a name table (the import resolver of the repository
  relies on the same call: its \<open>enterModuleDef\<close> first stores the table of its initial,
  empty module).
\<close>

datatype callback =
    EnterModuleDef tntModule
  | ExitModuleDef
  | ExitName int string
  | ExitApp int string "tntEx list"
  | ExitLiteral int
  | ExitOpDef int tntEx
  | ExitLet int tntEx
  | EnterLambda int "string list" tntEx
  | ExitLambda int "string list" tntEx

fun walkExpression :: "tntEx \<Rightarrow> callback list"
  and walkExpressions :: "tntEx list \<Rightarrow> callback list"
  and walkDefinition :: "tntDef \<Rightarrow> callback list"
  and walkDefinitions :: "tntDef list \<Rightarrow> callback list"
  and walkModule :: "tntModule \<Rightarrow> callback list" where
  "walkExpression (TntName i n) = [ExitName i n]"
| "walkExpression (TntBool i b) = [ExitLiteral i]"
| "walkExpression (TntInt i n) = [ExitLiteral i]"
| "walkExpression (TntStr i s) = [ExitLiteral i]"
| "walkExpression (TntApp i opcode args) = walkExpressions args @ [ExitApp i opcode args]"
| "walkExpression (TntLambda i ps body) =
     EnterLambda i ps body # walkExpression body @ [ExitLambda i ps body]"
| "walkExpression (TntLet i opdef body) =
     walkDefinition opdef @ walkExpression body @ [ExitLet i body]"
| "walkExpressions [] = []"
| "walkExpressions (e # es) = walkExpression e @ walkExpressions es"
| "walkDefinition (TntOpDef i n body) = walkExpression body @ [ExitOpDef i body]"
| "walkDefinition (TntModuleDef i m) = walkModule m"
| "walkDefinition (TntOtherDef i) = []"
| "walkDefinitions [] = []"
| "walkDefinitions (df # dfs) = walkDefinition df @ walkDefinitions dfs"
| "walkModule (TntModule i n defs) =
     EnterModuleDef (TntModule i n defs) # walkDefinitions defs @ [ExitModuleDef]"

fun callVisitor :: "'tbl collaborators \<Rightarrow> callback \<Rightarrow> 'tbl visitor \<Rightarrow> fatal + 'tbl visitor" where
  "callVisitor d (EnterModuleDef m) v = Inr (enterModuleDef d m v)"
| "callVisitor d ExitModuleDef v = Inr (exitModuleDef d v)"
| "callVisitor d (ExitName i n) v = exitName d i n v"
| "callVisitor d (ExitApp i opcode args) v = exitApp d i opcode args v"
| "callVisitor d (ExitLiteral i) v = Inr (exitLiteral i v)"
| "callVisitor d (ExitOpDef i body) v = Inr (exitOpDef i body v)"
| "callVisitor d (ExitLet i body) v = Inr (exitLet i body v)"
| "callVisitor d (EnterLambda i ps body) v = enterLambda d i ps body v"
| "callVisitor d (ExitLambda i ps body) v = Inr (exitLambda d i ps body v)"

text \<open>The callbacks run in order; a thrown error ends the run.\<close>

fun runCallbacks :: "'tbl collaborators \<Rightarrow> callback list \<Rightarrow> 'tbl visitor \<Rightarrow> fatal + 'tbl visitor" where
  "runCallbacks d [] v = Inr v"
| "runCallbacks d (c # cs) v =
     (case callVisitor d c v of
        Inl f \<Rightarrow> Inl f
      | Inr v1 \<Rightarrow> runCallbacks d cs v1)"

text \<open>
  \<open>inferEffects\<close>: a thrown error (\<open>Inl\<close>), or the returned \<open>Either\<close>: the errors (\<open>left\<close>) when
  there are any, the effects (\<open>right\<close>) otherwise.
\<close>

definition inferEffects ::
  "'tbl collaborators \<Rightarrow> (string \<Rightarrow> (nat \<Rightarrow> effect) option) \<Rightarrow> (string \<Rightarrow> 'tbl option) \<Rightarrow> tntModule
     \<Rightarrow> fatal + ((int \<times> errorTree) list + (int \<times> effect option) list)" where
  "inferEffects d sigs tables m =
     (case runCallbacks d (walkModule m) (newVisitor d sigs tables) of
        Inl f \<Rightarrow> Inl f
      | Inr visitor \<Rightarrow>
          if errors visitor \<noteq> [] then Inr (Inl (errors visitor))
          else Inr (Inr (effects visitor)))"

section \<open>An instance of the collaborators\<close>

text \<open>
  The theorems quantify over the collaborators. To run the inferrer on concrete modules, this
  section gives one instance of them, written from the spec's description of each.
\<close>

text \<open>
  Modelled from the spec: \<open>effectNames\<close> (the file \<open>base\<close>) is not among the sources. It
  "collects every Quantified name reachable anywhere inside an Effect (including inside
  nested VariableSets and Arrow params/result)"; each name comes once, with its kind.
\<close>

fun variablesNames :: "variables \<Rightarrow> (nameKind \<times> string) list" where
  "variablesNames (ConcreteVariables vs) = []"
| "variablesNames (QuantifiedVariables n) = [(VariableName, n)]"

fun allEffectNames :: "effect \<Rightarrow> (nameKind \<times> string) list" where
  "allEffectNames (Concrete r u t) = variablesNames r @ variablesNames u @ variablesNames t"
| "allEffectNames (Quantified n) = [(EffectName, n)]"
| "allEffectNames (Arrow ps r) = concat (map allEffectNames ps) @ allEffectNames r"

definition specEffectNames :: "effect \<Rightarrow> (nameKind \<times> string) list" where
  "specEffectNames e = remdups (allEffectNames e)"

text \<open>
  Modelled from the spec: \<open>applySubstitution\<close> (the file \<open>substitutions\<close>) is not among the
  sources. It "structurally rewrites an Effect, replacing every Quantified effect-variable
  or Quantified variable-set whose name matches a binding with the bound value; recurses
  into Arrow params/result and into each VariableSet inside a Concrete effect. Fails if a
  binding's value kind does not match the site's expected kind". One simultaneous pass: the
  bound value is not rewritten again.
\<close>

definition kindMismatch :: "string \<Rightarrow> errorTree" where
  "kindMismatch n =
     ErrorTree (Some (''Substitution with the wrong kind for '' @ n)) ''Applying substitution'' []"

fun substituteVariables :: "substitutions \<Rightarrow> variables \<Rightarrow> errorTree + variables" where
  "substituteVariables subs (ConcreteVariables vs) = Inr (ConcreteVariables vs)"
| "substituteVariables subs (QuantifiedVariables n) =
     (case find (\<lambda>s. bindingName s = n) subs of
        None \<Rightarrow> Inr (QuantifiedVariables n)
      | Some (VariableBinding _ vs) \<Rightarrow> Inr vs
      | Some (EffectBinding _ _) \<Rightarrow> Inl (kindMismatch n))"

fun specApplySubstitution :: "substitutions \<Rightarrow> effect \<Rightarrow> errorTree + effect" where
  "specApplySubstitution subs (Concrete r u t) =
     chain (substituteVariables subs r) (\<lambda>r'.
     chain (substituteVariables subs u) (\<lambda>u'.
     chain (substituteVariables subs t) (\<lambda>t'. Inr (Concrete r' u' t'))))"
| "specApplySubstitution subs (Quantified n) =
     (case find (\<lambda>s. bindingName s = n) subs of
        None \<Rightarrow> Inr (Quantified n)
      | Some (EffectBinding _ e) \<Rightarrow> Inr e
      | Some (VariableBinding _ _) \<Rightarrow> Inl (kindMismatch n))"
| "specApplySubstitution subs (Arrow ps r) =
     (case mergeInMany (map (specApplySubstitution subs) ps) of
        Inl errs \<Rightarrow> Inl (ErrorTree None ''Applying substitution to an arrow effect'' errs)
      | Inr ps' \<Rightarrow>
          (case specApplySubstitution subs r of
             Inl err \<Rightarrow> Inl (ErrorTree None ''Applying substitution to an arrow effect'' [err])
           | Inr r' \<Rightarrow> Inr (Arrow ps' r')))"

text \<open>
  Modelled from the spec: \<open>compose\<close> (the file \<open>substitutions\<close>) is not among the sources.
  The recipe of the spec: "apply newSubs to the value of every binding in existingSubs
  [...], then append any bindings from newSubs whose names are not already keys in
  existingSubs".
\<close>

fun substituteBinding :: "substitutions \<Rightarrow> substitution \<Rightarrow> errorTree + substitution" where
  "substituteBinding subs (EffectBinding n e) =
     (case specApplySubstitution subs e of Inl err \<Rightarrow> Inl err | Inr e' \<Rightarrow> Inr (EffectBinding n e'))"
| "substituteBinding subs (VariableBinding n vs) =
     (case substituteVariables subs vs of Inl err \<Rightarrow> Inl err | Inr vs' \<Rightarrow> Inr (VariableBinding n vs'))"

definition specCompose :: "substitutions \<Rightarrow> substitutions \<Rightarrow> errorTree + substitutions" where
  "specCompose newSubs existingSubs =
     (case mergeInMany (map (substituteBinding newSubs) existingSubs) of
        Inl errs \<Rightarrow> Inl (ErrorTree None ''Composing substitutions'' errs)
      | Inr updated \<Rightarrow>
          Inr (updated @
               filter (\<lambda>s. bindingName s \<notin> set (map bindingName existingSubs)) newSubs))"

text \<open>
  Modelled from the spec: \<open>unify\<close> (the file \<open>base\<close>) is not among the sources. The rows of
  the spec's table, in its order: the same quantified name on both sides gives the empty
  substitution; a quantified name is bound to the other side unless it occurs there; two
  concrete effects unify their variable sets slot by slot and compose the three results;
  two arrows of the same arity unify their parameters from left to right and then their
  results, each pair under the substitution accumulated so far; any other pair fails. A
  quantified set of variables is bound to the other set, and two concrete sets unify when
  they are equal as sets. The first argument bounds the nesting of arrows that is followed.
\<close>

definition unificationError :: "string \<Rightarrow> errorTree" where
  "unificationError msg = ErrorTree (Some msg) ''Trying to unify effects'' []"

fun unifyVariables :: "variables \<Rightarrow> variables \<Rightarrow> errorTree + substitutions" where
  "unifyVariables (QuantifiedVariables n) vs = Inr [VariableBinding n vs]"
| "unifyVariables vs (QuantifiedVariables n) = Inr [VariableBinding n vs]"
| "unifyVariables (ConcreteVariables xs) (ConcreteVariables ys) =
     (if set xs = set ys then Inr []
      else Inl (unificationError ''Expected the same variables''))"

definition unifyConcrete ::
  "variables \<times> variables \<times> variables \<Rightarrow> variables \<times> variables \<times> variables
     \<Rightarrow> errorTree + substitutions" where
  "unifyConcrete a b =
     (case (a, b) of ((r1, u1, t1), (r2, u2, t2)) \<Rightarrow>
        chain (unifyVariables r1 r2) (\<lambda>sr.
        chain (unifyVariables u1 u2) (\<lambda>su.
        chain (unifyVariables t1 t2) (\<lambda>st.
        chain (specCompose su sr) (\<lambda>sru. specCompose st sru)))))"

fun unifyWithin :: "nat \<Rightarrow> effect \<Rightarrow> effect \<Rightarrow> errorTree + substitutions"
  and unifyPairs :: "nat \<Rightarrow> substitutions \<Rightarrow> effect list \<Rightarrow> effect list \<Rightarrow> errorTree + substitutions"
  where
  "unifyWithin k (Quantified n) e =
     (if e = Quantified n then Inr []
      else if n \<in> snd ` set (allEffectNames e)
        then Inl (unificationError (''Cyclical binding of '' @ n))
      else Inr [EffectBinding n e])"
| "unifyWithin k (Concrete r u t) (Quantified n) =
     (if n \<in> snd ` set (allEffectNames (Concrete r u t))
        then Inl (unificationError (''Cyclical binding of '' @ n))
      else Inr [EffectBinding n (Concrete r u t)])"
| "unifyWithin k (Arrow ps r) (Quantified n) =
     (if n \<in> snd ` set (allEffectNames (Arrow ps r))
        then Inl (unificationError (''Cyclical binding of '' @ n))
      else Inr [EffectBinding n (Arrow ps r)])"
| "unifyWithin k (Concrete r1 u1 t1) (Concrete r2 u2 t2) =
     unifyConcrete (r1, u1, t1) (r2, u2, t2)"
| "unifyWithin k (Arrow ps1 r1) (Arrow ps2 r2) =
     (if length ps1 \<noteq> length ps2
        then Inl (unificationError ''Expected the same number of parameters'')
      else (case k of
              0 \<Rightarrow> Inl (unificationError ''Arrows nested too deep'')
            | Suc j \<Rightarrow> unifyPairs j [] (ps1 @ [r1]) (ps2 @ [r2])))"
| "unifyWithin k (Concrete r u t) (Arrow ps res) =
     Inl (unificationError ''Cannot unify a concrete effect and an arrow'')"
| "unifyWithin k (Arrow ps res) (Concrete r u t) =
     Inl (unificationError ''Cannot unify an arrow and a concrete effect'')"
| "unifyPairs k acc [] bs = Inr acc"
| "unifyPairs k acc (a # as) [] = Inr acc"
| "unifyPairs k acc (a # as) (b # bs) =
     chain (specApplySubstitution acc a) (\<lambda>a'.
     chain (specApplySubstitution acc b) (\<lambda>b'.
     chain (unifyWithin k a' b') (\<lambda>s.
     chain (specCompose s acc) (\<lambda>acc'. unifyPairs k acc' as bs))))"

definition specUnify :: "effect \<Rightarrow> effect \<Rightarrow> errorTree + substitutions" where
  "specUnify a b = unifyWithin 8 a b"

text \<open>
  Modelled from the spec: \<open>lookupValue\<close> (the file \<open>lookupTable\<close>) is not among the sources.
  The spec has a "read-only" lookup of a definition "addressable by identifier plus the
  scope chain"; the instance is a table of definitions that are visible in every scope, so
  the lookup is by identifier alone.
\<close>

definition flatLookupValue ::
  "(string \<times> nameDefinition) list \<Rightarrow> scopeTree \<Rightarrow> string \<Rightarrow> int \<Rightarrow> nameDefinition option" where
  "flatLookupValue table tree name scope = map_of table name"

text \<open>
  Modelled from the spec: \<open>expressionToString\<close> (the file \<open>IRprinting\<close>) is not among the
  sources; the spec only has the error "citing the application's source text". The instance
  prints names, literals and applications, and a placeholder for the other expressions.
\<close>

fun joinWith :: "string \<Rightarrow> string list \<Rightarrow> string" where
  "joinWith sep [] = []"
| "joinWith sep [x] = x"
| "joinWith sep (x # y # ys) = x @ sep @ joinWith sep (y # ys)"

fun printExpression :: "tntEx \<Rightarrow> string" where
  "printExpression (TntName i n) = n"
| "printExpression (TntBool i b) = (if b then ''true'' else ''false'')"
| "printExpression (TntInt i n) = showInt n"
| "printExpression (TntStr i s) = s"
| "printExpression (TntApp i opcode args) =
     opcode @ ''('' @ joinWith '', '' (map printExpression args) @ '')''"
| "printExpression (TntLambda i ps body) = ''(...)''"
| "printExpression (TntLet i opdef body) = ''(...)''"

text \<open>
  The instance. Its lookup tables are the flat tables above; the flat lookup does not read the
  scope tree, so every module gets the empty tree, and \<open>newTable({})\<close> is the empty table.
\<close>

definition specCollaborators :: "(string \<times> nameDefinition) list collaborators" where
  "specCollaborators =
     \<lparr> lookupValue = flatLookupValue,
       newTable = [],
       treeFromModule = (\<lambda>m. ScopeTree 0 []),
       unify = specUnify,
       applySubstitution = specApplySubstitution,
       compose = specCompose,
       effectNames = specEffectNames,
       expressionToString = printExpression \<rparr>"

section \<open>The calls of freshVar in a run\<close>

text \<open>
  To speak of every call of \<open>freshVar\<close> made during a traversal, the functions that reach
  \<open>freshVar\<close> are written a second time with a record of its calls: a list with one entry per
  call, in the order of the calls, holding the prefix that was given and the name that was
  returned. The record is an argument and a result of each function, returned whether the
  function returns or throws, and nothing reads it: each function below is the function above
  of the same name, with the record passed along.
\<close>

type_synonym calls = "(string \<times> string) list"

text \<open>\<open>freshVar\<close>, adding its call at the end of the record.\<close>

definition freshVarL ::
  "string \<Rightarrow> 'tbl visitor \<Rightarrow> calls \<Rightarrow> (string \<times> 'tbl visitor) \<times> calls" where
  "freshVarL prefix v calls =
     (case freshVar prefix v of (x, v1) \<Rightarrow> ((x, v1), calls @ [(prefix, x)]))"

text \<open>\<open>freshSubs\<close>: one call of \<open>freshVar('v')\<close> per entry, in order.\<close>

fun freshSubsL ::
  "(nameKind \<times> string) list \<Rightarrow> 'tbl visitor \<Rightarrow> calls \<Rightarrow> (substitutions \<times> 'tbl visitor) \<times> calls" where
  "freshSubsL [] v calls = (([], v), calls)"
| "freshSubsL (n # ns) v calls =
     (case freshVarL ''v'' v calls of ((x, v1), calls1) \<Rightarrow>
        (case freshSubsL ns v1 calls1 of ((ss, v2), calls2) \<Rightarrow>
           ((freshBinding n x # ss, v2), calls2)))"

text \<open>\<open>newInstance\<close> and \<open>fetchSignature\<close>.\<close>

definition newInstanceL ::
  "'tbl collaborators \<Rightarrow> effect \<Rightarrow> 'tbl visitor \<Rightarrow> calls
     \<Rightarrow> (fatal + (effect \<times> 'tbl visitor)) \<times> calls" where
  "newInstanceL d eff v calls =
     (case freshSubsL (effectNames d eff) v calls of ((subs, v1), calls1) \<Rightarrow>
        let v2 = (case compose d (filter lambdaIntroduced subs) (substitutions v1) of
                    Inr s \<Rightarrow> v1\<lparr> substitutions := s \<rparr>
                  | Inl _ \<Rightarrow> v1)
        in ((case applySubstitution d subs eff of
               Inl err \<Rightarrow> Inl (FreshNamesError err)
             | Inr r \<Rightarrow> Inr (r, v2)),
            calls1))"

definition fetchSignatureL ::
  "'tbl collaborators \<Rightarrow> string \<Rightarrow> int \<Rightarrow> nat \<Rightarrow> 'tbl visitor \<Rightarrow> calls
     \<Rightarrow> (fatal + ((string + effect) \<times> 'tbl visitor)) \<times> calls" where
  "fetchSignatureL d opcode scope arity v calls =
     (let found =
        (case builtinSignatures v opcode of
           Some signatureFunction \<Rightarrow> Inr (Some (signatureFunction arity))
         | None \<Rightarrow>
             (case lookupCurrent d v opcode scope of
                Inl f \<Rightarrow> Inl f
              | Inr def \<Rightarrow>
                  (case truthyId (referenceOf def) of
                     None \<Rightarrow> Inl (SignatureNotFound opcode)
                   | Some i \<Rightarrow>
                       if \<not> hasEffect (effects v) i then Inl (SignatureNotFound opcode)
                       else Inr (getEffect (effects v) i))))
      in (case found of
            Inl f \<Rightarrow> (Inl f, calls)
          | Inr None \<Rightarrow> (Inl TypeError, calls)
          | Inr (Some eff) \<Rightarrow>
              (case newInstanceL d eff v calls of
                 (Inl f, calls1) \<Rightarrow> (Inl f, calls1)
               | (Inr (r, v'), calls1) \<Rightarrow> (Inr (Inr r, v'), calls1))))"

text \<open>
  \<open>exitName\<close> reaches \<open>freshVar\<close> through \<open>fetchSignature\<close> when the name is an operator;
  \<open>exitApp\<close> through \<open>fetchSignature\<close> and then by its own call \<open>freshVar('e')\<close>.
\<close>

definition exitNameL ::
  "'tbl collaborators \<Rightarrow> int \<Rightarrow> string \<Rightarrow> 'tbl visitor \<Rightarrow> calls \<Rightarrow> (fatal + 'tbl visitor) \<times> calls" where
  "exitNameL d i name v calls =
     (case lookupCurrent d v name i of
        Inl f \<Rightarrow> (Inl f, calls)
      | Inr None \<Rightarrow> (Inl (DefinitionNotFound name), calls)
      | Inr (Some def) \<Rightarrow>
          if kind def = ''param'' then
            (case truthyId (reference def) of
               None \<Rightarrow> (Inl (ParamEffectNotFound name), calls)
             | Some r \<Rightarrow>
                 if \<not> hasEffect (effects v) r then (Inl (ParamEffectNotFound name), calls)
                 else (Inr (v\<lparr> effects := AList.update i (getEffect (effects v) r) (effects v) \<rparr>),
                       calls))
          else if kind def = ''const'' then
            (Inr (v\<lparr> effects := AList.update i (Some pureEffect) (effects v) \<rparr>), calls)
          else if kind def = ''var'' then
            (Inr (v\<lparr> effects :=
                    AList.update i
                      (Some (Concrete (ConcreteVariables [name]) emptyVariables emptyVariables))
                      (effects v) \<rparr>),
             calls)
          else
            (case fetchSignatureL d name i 2 v calls of
               (Inl f, calls1) \<Rightarrow> (Inl f, calls1)
             | (Inr (Inl m, v1), calls1) \<Rightarrow> (Inr v1, calls1)
             | (Inr (Inr s, v1), calls1) \<Rightarrow>
                 (Inr (v1\<lparr> effects := AList.update i (Some s) (effects v1) \<rparr>), calls1)))"

definition exitAppL ::
  "'tbl collaborators \<Rightarrow> int \<Rightarrow> string \<Rightarrow> tntEx list \<Rightarrow> 'tbl visitor \<Rightarrow> calls
     \<Rightarrow> (fatal + 'tbl visitor) \<times> calls" where
  "exitAppL d i opcode args v calls =
     (if errors v \<noteq> [] then (Inr v, calls)
      else
        let location = applicationLocation d (TntApp i opcode args) in
        (case fetchSignatureL d opcode i (length args) v calls of
           (Inl f, calls1) \<Rightarrow> (Inl f, calls1)
         | (Inr (Inl m, v1), calls1) \<Rightarrow>
             (Inr (v1\<lparr> errors := AList.update i (ErrorTree (Some m) location []) (errors v1) \<rparr>),
              calls1)
         | (Inr (Inr signature, v1), calls1) \<Rightarrow>
             (case freshVarL ''e'' v1 calls1 of ((x, v2), calls2) \<Rightarrow>
                let resultEffect = Quantified x in
                ((case those (map (\<lambda>a. getEffect (effects v2) (exId a)) args) of
                    None \<Rightarrow> Inl TypeError
                  | Some params \<Rightarrow>
                      (case chain (unify d signature (Arrow params resultEffect))
                              (\<lambda>s. compose d s (substitutions v2)) of
                         Inl err \<Rightarrow>
                           Inr (v2\<lparr> errors := AList.update i (ErrorTree None location [err]) (errors v2) \<rparr>)
                       | Inr s \<Rightarrow>
                           if list_ex (\<lambda>entry. snd entry = None) (effects v2) then Inl TypeError
                           else
                             let v3 = v2\<lparr> substitutions := s,
                                          effects := map (rewriteEffect d s) (effects v2) \<rparr> in
                             (case applySubstitution d s resultEffect of
                                Inl err \<Rightarrow>
                                  Inr (v3\<lparr> errors :=
                                          AList.update i (ErrorTree None location [err]) (errors v3) \<rparr>)
                              | Inr e \<Rightarrow>
                                  Inr (v3\<lparr> effects := AList.update i (Some e) (effects v3) \<rparr>)))),
                 calls2))))"

text \<open>
  The other callbacks never call \<open>freshVar\<close>: they leave the record as it is. The traversal
  passes the record from each callback to the next, and keeps it when a callback throws.
\<close>

fun callVisitorL ::
  "'tbl collaborators \<Rightarrow> callback \<Rightarrow> 'tbl visitor \<Rightarrow> calls \<Rightarrow> (fatal + 'tbl visitor) \<times> calls" where
  "callVisitorL d (ExitName i n) v calls = exitNameL d i n v calls"
| "callVisitorL d (ExitApp i opcode args) v calls = exitAppL d i opcode args v calls"
| "callVisitorL d c v calls = (callVisitor d c v, calls)"

fun runCallbacksL ::
  "'tbl collaborators \<Rightarrow> callback list \<Rightarrow> 'tbl visitor \<Rightarrow> calls \<Rightarrow> (fatal + 'tbl visitor) \<times> calls" where
  "runCallbacksL d [] v calls = (Inr v, calls)"
| "runCallbacksL d (c # cs) v calls =
     (case callVisitorL d c v calls of
        (Inl f, calls1) \<Rightarrow> (Inl f, calls1)
      | (Inr v1, calls1) \<Rightarrow> runCallbacksL d cs v1 calls1)"

text \<open>
  Two properties of a record. \<open>counted v calls\<close>: the counter of every prefix in the visitor
  is the number of calls recorded with that prefix. \<open>numbered calls\<close>: the name of every
  recorded call is its prefix followed by the number of earlier recorded calls with the same
  prefix.
\<close>

definition counted :: "'tbl visitor \<Rightarrow> calls \<Rightarrow> bool" where
  "counted v calls \<longleftrightarrow> (\<forall>p. currentCounter v p = count_list (map fst calls) p)"

definition numbered :: "calls \<Rightarrow> bool" where
  "numbered calls \<longleftrightarrow>
     (\<forall>a < length calls.
        snd (calls ! a) = fst (calls ! a) @ showNat (count_list (map fst (take a calls)) (fst (calls ! a))))"

section \<open>Names of a fresh instance\<close>

text \<open>
  The names \<open>newInstance\<close> mints when the counter of \<open>'v'\<close> is \<open>c\<close> and there are \<open>n\<close> names to
  rename, and the substitution that renames each name to its fresh one.
\<close>

definition freshNames :: "nat \<Rightarrow> nat \<Rightarrow> string list" where
  "freshNames c n = map (\<lambda>k. ''v'' @ showNat (c + k)) [0..<n]"

definition renaming :: "(nameKind \<times> string) list \<Rightarrow> nat \<Rightarrow> substitutions" where
  "renaming names c = map2 freshBinding names (freshNames c (length names))"

section \<open>Concrete modules and visitors\<close>

text \<open>
  Builtin signatures: \<open>not\<close> reads what its argument reads, whatever the arity asked for;
  \<open>and\<close> has one parameter for each argument.
\<close>

definition readVariables :: "string \<Rightarrow> effect" where
  "readVariables r = Concrete (QuantifiedVariables r) emptyVariables emptyVariables"

definition builtins :: "string \<Rightarrow> (nat \<Rightarrow> effect) option" where
  "builtins =
     [''not'' \<mapsto> (\<lambda>arity. Arrow [readVariables ''r1''] (readVariables ''r1'')),
      ''and'' \<mapsto> (\<lambda>arity. Arrow (replicate arity (Quantified ''a'')) (Quantified ''a''))]"

text \<open>
  A visitor inside a module \<open>m\<close> whose name table is \<open>table\<close>, before any expression is
  visited.
\<close>

definition visitorIn ::
  "(string \<times> nameDefinition) list \<Rightarrow> (string \<times> nameDefinition) list visitor" where
  "visitorIn table =
     (newVisitor specCollaborators builtins [''m'' \<mapsto> table]) \<lparr> currentTable := Some table \<rparr>"

text \<open>
  \<open>module m { def f(x) = { val y = x  y } }\<close>: the parameter \<open>x\<close> refers to the lambda (node
  5), the definition \<open>y\<close> is node 2, the use of \<open>x\<close> is node 1 and the use of \<open>y\<close> is node 3.
\<close>

definition letTable :: "(string \<times> nameDefinition) list" where
  "letTable =
     [(''x'', \<lparr> kind = ''param'', defIdentifier = ''x'', reference = Some 5 \<rparr>),
      (''y'', \<lparr> kind = ''val'', defIdentifier = ''y'', reference = Some 2 \<rparr>),
      (''f'', \<lparr> kind = ''def'', defIdentifier = ''f'', reference = Some 6 \<rparr>)]"

definition letModule :: tntModule where
  "letModule =
     TntModule 7 ''m''
       [TntOpDef 6 ''f''
          (TntLambda 5 [''x'']
             (TntLet 4 (TntOpDef 2 ''y'' (TntName 1 ''x'')) (TntName 3 ''y'')))]"

text \<open>The effects \<open>inferEffects\<close> returns for \<open>letModule\<close>.\<close>

definition letEffects :: "(int \<times> effect option) list" where
  "letEffects =
     [(5, Some (Arrow [Quantified ''v0''] (Quantified ''v0''))),
      (1, Some (Quantified ''e_x_5'')),
      (2, Some (Quantified ''e_x_5'')),
      (3, Some (Quantified ''v0'')),
      (4, Some (Quantified ''v0'')),
      (6, Some (Arrow [Quantified ''v0''] (Quantified ''v0'')))]"

text \<open>
  The same let-in under a state variable: \<open>var x\<close> and \<open>val y = x { y }\<close>. \<open>afterX\<close> is the
  visitor after the use of \<open>x\<close> (node 1) was visited.
\<close>

definition readX :: effect where
  "readX = Concrete (ConcreteVariables [''x'']) (ConcreteVariables []) (ConcreteVariables [])"

definition varLetTable :: "(string \<times> nameDefinition) list" where
  "varLetTable =
     [(''x'', \<lparr> kind = ''var'', defIdentifier = ''x'', reference = Some 8 \<rparr>),
      (''y'', \<lparr> kind = ''val'', defIdentifier = ''y'', reference = Some 2 \<rparr>),
      (''f'', \<lparr> kind = ''def'', defIdentifier = ''f'', reference = Some 6 \<rparr>)]"

definition afterX :: "(string \<times> nameDefinition) list visitor" where
  "afterX = (visitorIn varLetTable) \<lparr> effects := [(1, Some readX)] \<rparr>"

text \<open>
  \<open>module m { def a = not(true, false)  def b = not(true) }\<close>: the first application has
  one argument too many, the second is well-formed and shares nothing with the first.
  \<open>secondDefModule\<close> is the module without its first definition, and \<open>afterTwoDefs\<close> the
  visitor at the end of the traversal of \<open>twoDefsModule\<close>.
\<close>

definition twoDefsModule :: tntModule where
  "twoDefsModule =
     TntModule 9 ''m''
       [TntOpDef 4 ''a'' (TntApp 3 ''not'' [TntBool 1 True, TntBool 2 False]),
        TntOpDef 8 ''b'' (TntApp 7 ''not'' [TntBool 6 True])]"

definition secondDefModule :: tntModule where
  "secondDefModule = TntModule 9 ''m'' [TntOpDef 8 ''b'' (TntApp 7 ''not'' [TntBool 6 True])]"

definition afterTwoDefs :: "(string \<times> nameDefinition) list visitor" where
  "afterTwoDefs =
     \<lparr> effects = [(1, Some pureEffect), (2, Some pureEffect), (6, Some pureEffect)],
       errors =
         [(3, ErrorTree None
                ''Trying to infer effect for operator application in not(true, false)''
                [ErrorTree (Some ''Expected the same number of parameters'')
                   ''Trying to unify effects'' []])],
       builtinSignatures = builtins,
       lookupTable = [''m'' \<mapsto> []],
       freshVarCounters = [(''v'', 1), (''e'', 1)],
       currentModule = Some twoDefsModule,
       currentTable = Some [],
       currentScopeTree = ScopeTree 0 [],
       moduleStack = [],
       substitutions = [] \<rparr>"

text \<open>
  \<open>module m { def a = not(true)  def b = not(false) }\<close>: two well-formed applications, each
  of which takes a fresh instance of the signature of \<open>not\<close> and a fresh result variable.
\<close>

definition twoCallsModule :: tntModule where
  "twoCallsModule =
     TntModule 7 ''m''
       [TntOpDef 3 ''a'' (TntApp 2 ''not'' [TntBool 1 True]),
        TntOpDef 6 ''b'' (TntApp 5 ''not'' [TntBool 4 False])]"

text \<open>\<open>module m { def a = f(true) }\<close>, where nothing defines \<open>f\<close>.\<close>

definition unknownOperatorModule :: tntModule where
  "unknownOperatorModule = TntModule 4 ''m'' [TntOpDef 3 ''a'' (TntApp 2 ''f'' [TntBool 1 True])]"

text \<open>
  The visitor inside \<open>(p => not(p))\<close> (the lambda is node 5), after the use of \<open>p\<close> (node 1)
  was visited and before the application (node 2) is.
\<close>

definition insideLambda :: "(string \<times> nameDefinition) list visitor" where
  "insideLambda =
     (visitorIn [])
       \<lparr> effects := [(5, Some (Quantified ''e_p_5'')), (1, Some (Quantified ''e_p_5''))] \<rparr>"

text \<open>A table where \<open>and\<close> is an operator without a reference, as a builtin is.\<close>

definition andTable :: "(string \<times> nameDefinition) list" where
  "andTable = [(''and'', \<lparr> kind = ''def'', defIdentifier = ''and'', reference = None \<rparr>)]"

text \<open>
  \<open>module m { def f = (x => x) }\<close> with a table whose definition of the parameter \<open>x\<close> has no
  reference.
\<close>

definition unresolvedParamTable :: "(string \<times> nameDefinition) list" where
  "unresolvedParamTable =
     [(''x'', \<lparr> kind = ''param'', defIdentifier = ''x'', reference = None \<rparr>)]"

definition identityModule :: tntModule where
  "identityModule =
     TntModule 4 ''m'' [TntOpDef 3 ''f'' (TntLambda 2 [''x''] (TntName 1 ''x''))]"

section \<open>Decimal numbers are injective\<close>

lemma digitChar_inj: "a < 10 \<Longrightarrow> b < 10 \<Longrightarrow> digitChar a = digitChar b \<Longrightarrow> a = b"
proof -
  assume a: "a < 10" and b: "b < 10" and e: "digitChar a = digitChar b"
  have d: "distinct ''0123456789''" by simp
  have l: "length ''0123456789'' = 10" by simp
  from d a b e l show "a = b"
    unfolding digitChar_def by (metis nth_eq_iff_index_eq)
qed

lemma showNat_nonempty: "showNat n \<noteq> []"
  by (subst showNat.simps) simp

lemma showNat_small: "n < 10 \<Longrightarrow> showNat n = [digitChar n]"
  by (subst showNat.simps) simp

lemma showNat_large: "\<not> n < 10 \<Longrightarrow> showNat n = showNat (n div 10) @ [digitChar (n mod 10)]"
  by (subst showNat.simps) simp

lemma showNat_inj: "showNat n = showNat m \<Longrightarrow> n = m"
proof (induction n arbitrary: m rule: showNat.induct)
  case (1 n)
  show ?case
  proof (cases "n < 10")
    case True
    note n = this
    show ?thesis
    proof (cases "m < 10")
      case True
      with n "1.prems" show ?thesis by (simp add: showNat_small digitChar_inj)
    next
      case False
      with n "1.prems" showNat_nonempty [of "m div 10"] show ?thesis
        by (simp add: showNat_small showNat_large)
    qed
  next
    case False
    note n = this
    show ?thesis
    proof (cases "m < 10")
      case True
      with n "1.prems" showNat_nonempty [of "n div 10"] show ?thesis
        by (simp add: showNat_small showNat_large)
    next
      case False
      with n "1.prems" have e: "showNat (n div 10) = showNat (m div 10)"
        and dg: "digitChar (n mod 10) = digitChar (m mod 10)"
        by (simp_all add: showNat_large)
      from "1.IH" [OF n e] have q: "n div 10 = m div 10" .
      from dg have r: "n mod 10 = m mod 10" by (intro digitChar_inj) simp_all
      from q r show ?thesis by (metis div_mult_mod_eq)
    qed
  qed
qed

lemma showNat_digits:
  "showNat 0 = ''0''" "showNat (Suc 0) = ''1''" "showNat 2 = ''2''" "showNat 3 = ''3''"
  "showNat 4 = ''4''" "showNat 5 = ''5''"
  by (subst showNat.simps, simp add: digitChar_def)+

text \<open>The equations that evaluate the visitor and the instance on concrete inputs.\<close>

lemmas visitor_defs =
  inferEffects_def newVisitor_def enterModuleDef_def exitModuleDef_def updateCurrentModule_def
  exitName_def exitApp_def exitLiteral_def exitOpDef_def exitLet_def enterLambdaParam_def
  exitLambda_def fetchSignature_def newInstance_def freshVar_def currentCounter_def
  lookupCurrent_def truthyId_def referenceOf_def hasEffect_def getEffect_def
  lambdaIntroduced_def paramEffectName_def pureEffect_def emptyVariables_def chain_def
  rewriteEffect_def applicationLocation_def showInt_def showNat_digits Let_def

lemmas instance_defs =
  specCollaborators_def flatLookupValue_def specEffectNames_def specCompose_def specUnify_def
  unifyConcrete_def unificationError_def kindMismatch_def

lemmas scenario_defs =
  visitorIn_def insideLambda_def builtins_def readVariables_def

section \<open>Fresh names\<close>

lemma currentCounter_freshVar:
  "currentCounter (snd (freshVar p v)) q = (if q = p then currentCounter v p + 1 else currentCounter v q)"
  by (simp add: freshVar_def currentCounter_def Let_def update_conv')

lemma fst_freshVar: "fst (freshVar p v) = p @ showNat (currentCounter v p)"
  by (simp add: freshVar_def Let_def)

lemma count_list_take_less:
  "i < j \<Longrightarrow> j \<le> length ps \<Longrightarrow> count_list (take i ps) (ps ! i) < count_list (take j ps) (ps ! i)"
proof -
  assume ij: "i < j" and j: "j \<le> length ps"
  have "take j ps = take (Suc i) ps @ take (j - Suc i) (drop (Suc i) ps)"
    using ij by (metis Suc_leI le_add_diff_inverse take_add)
  moreover have "take (Suc i) ps = take i ps @ [ps ! i]"
    using ij j by (simp add: take_Suc_conv_app_nth)
  ultimately show ?thesis by (simp add: count_list_append)
qed

lemma currentCounter_newVisitor: "currentCounter (newVisitor d sigs tables) p = 0"
  by (simp add: currentCounter_def newVisitor_def)

section \<open>What the callbacks leave unchanged\<close>

lemma freshVar_frame:
  "effects (snd (freshVar p v)) = effects v"
  "errors (snd (freshVar p v)) = errors v"
  "substitutions (snd (freshVar p v)) = substitutions v"
  "builtinSignatures (snd (freshVar p v)) = builtinSignatures v"
  "currentTable (snd (freshVar p v)) = currentTable v"
  "currentScopeTree (snd (freshVar p v)) = currentScopeTree v"
  by (simp_all add: freshVar_def Let_def)

lemma freshSubs_frame:
  "freshSubs ns v = (ss, v') \<Longrightarrow>
     effects v' = effects v \<and> errors v' = errors v \<and> substitutions v' = substitutions v"
proof (induction ns arbitrary: v ss v')
  case Nil
  then show ?case by simp
next
  case (Cons n ns)
  obtain x v1 where f: "freshVar ''v'' v = (x, v1)" by (cases "freshVar ''v'' v")
  obtain ts v2 where g: "freshSubs ns v1 = (ts, v2)" by (cases "freshSubs ns v1")
  from Cons.prems f g have "v' = v2" by simp
  moreover from f have "effects v1 = effects v" "errors v1 = errors v" "substitutions v1 = substitutions v"
    using freshVar_frame [of "''v''" v] by simp_all
  ultimately show ?case using Cons.IH [OF g] by simp
qed

lemma newInstance_frame:
  "newInstance d eff v = Inr (r, v') \<Longrightarrow> effects v' = effects v \<and> errors v' = errors v"
  by (auto simp: newInstance_def Let_def split: prod.splits sum.splits dest: freshSubs_frame)

lemma fetchSignature_frame:
  "fetchSignature d opcode scope arity v = Inr (r, v') \<Longrightarrow> effects v' = effects v \<and> errors v' = errors v"
  by (auto simp: fetchSignature_def Let_def split: option.splits sum.splits if_splits prod.splits
      dest: newInstance_frame)

lemma getEffect_update:
  "getEffect (AList.update i e m) j = (if j = i then e else getEffect m j)"
  by (simp add: getEffect_def update_conv')

lemma hasEffect_keys: "hasEffect m k \<longleftrightarrow> k \<in> fst ` set m"
  by (simp add: hasEffect_def map_of_eq_None_iff)

lemma hasEffect_update: "hasEffect (AList.update i e m) k \<longleftrightarrow> k = i \<or> hasEffect m k"
  by (auto simp: hasEffect_def update_conv')

section \<open>The record of the calls of freshVar\<close>

text \<open>Without its record, each function of the second set is the function it was written from.\<close>

lemma freshVarL_erase: "fst (freshVarL p v l) = freshVar p v"
  by (simp add: freshVarL_def split: prod.splits)

lemma freshSubsL_erase: "fst (freshSubsL ns v l) = freshSubs ns v"
proof (induction ns arbitrary: v l)
  case Nil
  then show ?case by simp
next
  case (Cons n ns)
  obtain x v1 where f: "freshVar ''v'' v = (x, v1)" by (cases "freshVar ''v'' v")
  then have fl: "freshVarL ''v'' v l = ((x, v1), l @ [(''v'', x)])" by (simp add: freshVarL_def)
  obtain ss v2 l2 where g: "freshSubsL ns v1 (l @ [(''v'', x)]) = ((ss, v2), l2)"
    by (metis prod.collapse)
  with Cons.IH [of v1 "l @ [(''v'', x)]"] have "freshSubs ns v1 = (ss, v2)" by simp
  with f fl g show ?case by simp
qed

lemma newInstanceL_erase: "fst (newInstanceL d eff v l) = newInstance d eff v"
proof -
  obtain subs v1 l1 where g: "freshSubsL (effectNames d eff) v l = ((subs, v1), l1)"
    by (metis prod.collapse)
  with freshSubsL_erase [of "effectNames d eff" v l]
  have "freshSubs (effectNames d eff) v = (subs, v1)" by simp
  with g show ?thesis by (simp add: newInstanceL_def newInstance_def Let_def)
qed

lemma fetchSignature_found:
  "\<exists>found.
     fetchSignature d opcode scope arity v =
       (case found of
          Inl f \<Rightarrow> Inl f
        | Inr None \<Rightarrow> Inl TypeError
        | Inr (Some eff) \<Rightarrow>
            (case newInstance d eff v of Inl f \<Rightarrow> Inl f | Inr (r, v') \<Rightarrow> Inr (Inr r, v')))
     \<and> (\<forall>l. fetchSignatureL d opcode scope arity v l =
           (case found of
              Inl f \<Rightarrow> (Inl f, l)
            | Inr None \<Rightarrow> (Inl TypeError, l)
            | Inr (Some eff) \<Rightarrow>
                (case newInstanceL d eff v l of
                   (Inl f, calls1) \<Rightarrow> (Inl f, calls1)
                 | (Inr (r, v'), calls1) \<Rightarrow> (Inr (Inr r, v'), calls1))))"
  unfolding fetchSignature_def fetchSignatureL_def Let_def by blast

lemma fetchSignatureL_erase:
  "fst (fetchSignatureL d opcode scope arity v l) = fetchSignature d opcode scope arity v"
proof -
  from fetchSignature_found [of d opcode scope arity v]
  obtain found where a: "fetchSignature d opcode scope arity v =
       (case found of
          Inl f \<Rightarrow> Inl f
        | Inr None \<Rightarrow> Inl TypeError
        | Inr (Some eff) \<Rightarrow>
            (case newInstance d eff v of Inl f \<Rightarrow> Inl f | Inr (r, v') \<Rightarrow> Inr (Inr r, v')))"
    and b: "fetchSignatureL d opcode scope arity v l =
           (case found of
              Inl f \<Rightarrow> (Inl f, l)
            | Inr None \<Rightarrow> (Inl TypeError, l)
            | Inr (Some eff) \<Rightarrow>
                (case newInstanceL d eff v l of
                   (Inl f, calls1) \<Rightarrow> (Inl f, calls1)
                 | (Inr (r, v'), calls1) \<Rightarrow> (Inr (Inr r, v'), calls1)))"
    by blast
  show ?thesis
  proof (cases found)
    case (Inl f)
    then show ?thesis by (simp add: a b)
  next
    case (Inr opt)
    show ?thesis
    proof (cases opt)
      case None
      with Inr show ?thesis by (simp add: a b)
    next
      case (Some eff)
      obtain r l1 where n: "newInstanceL d eff v l = (r, l1)" by (cases "newInstanceL d eff v l")
      with newInstanceL_erase [of d eff v l] have "newInstance d eff v = r" by simp
      with n Inr Some show ?thesis
        by (simp add: a b split: sum.splits prod.splits)
    qed
  qed
qed

lemma exitNameL_erase: "fst (exitNameL d i n v l) = exitName d i n v"
proof -
  obtain r l1 where f: "fetchSignatureL d n i 2 v l = (r, l1)" by (cases "fetchSignatureL d n i 2 v l")
  with fetchSignatureL_erase [of d n i 2 v l] have "fetchSignature d n i 2 v = r" by simp
  with f show ?thesis
    by (simp add: exitNameL_def exitName_def split: sum.splits option.splits prod.splits)
qed

lemma exitAppL_erase: "fst (exitAppL d i opcode args v l) = exitApp d i opcode args v"
proof (cases "errors v \<noteq> []")
  case True
  then show ?thesis by (simp add: exitAppL_def exitApp_def)
next
  case False
  obtain r l1 where f: "fetchSignatureL d opcode i (length args) v l = (r, l1)"
    by (cases "fetchSignatureL d opcode i (length args) v l")
  with fetchSignatureL_erase [of d opcode i "length args" v l]
  have g: "fetchSignature d opcode i (length args) v = r" by simp
  show ?thesis
  proof (cases r)
    case (Inl x)
    with False f g show ?thesis by (simp add: exitAppL_def exitApp_def)
  next
    case (Inr y)
    obtain sg v1 where y: "y = (sg, v1)" by (cases y)
    show ?thesis
    proof (cases sg)
      case (Inl m)
      with False f g Inr y show ?thesis by (simp add: exitAppL_def exitApp_def Let_def)
    next
      case (Inr signature)
      obtain x v2 where fv: "freshVar ''e'' v1 = (x, v2)" by (cases "freshVar ''e'' v1")
      then have fl: "freshVarL ''e'' v1 l1 = ((x, v2), l1 @ [(''e'', x)])" by (simp add: freshVarL_def)
      from False f g \<open>r = Inr y\<close> y Inr fv fl show ?thesis
        by (simp add: exitAppL_def exitApp_def Let_def)
    qed
  qed
qed

lemma callVisitorL_erase: "fst (callVisitorL d c v l) = callVisitor d c v"
  by (cases c) (simp_all add: exitNameL_erase exitAppL_erase)

lemma runCallbacksL_erase: "fst (runCallbacksL d cs v l) = runCallbacks d cs v"
proof (induction cs arbitrary: v l)
  case Nil
  then show ?case by simp
next
  case (Cons c cs)
  obtain r l1 where c: "callVisitorL d c v l = (r, l1)" by (cases "callVisitorL d c v l")
  with callVisitorL_erase [of d c v l] have "callVisitor d c v = r" by simp
  with c Cons.IH show ?case by (simp split: sum.splits)
qed

text \<open>A lambda never touches the counters.\<close>

lemma enterLambdaParam_counter:
  "enterLambdaParam d i body p v = Inr v' \<Longrightarrow> freshVarCounters v' = freshVarCounters v"
  by (auto simp: enterLambdaParam_def split: sum.splits option.splits)

lemma enterLambda_counter:
  "enterLambda d i ps body v = Inr v' \<Longrightarrow> freshVarCounters v' = freshVarCounters v"
proof (induction ps arbitrary: v)
  case Nil
  then show ?case by simp
next
  case (Cons p ps)
  then show ?case
    by (auto split: sum.splits dest: enterLambdaParam_counter)
qed

text \<open>
  From a visitor whose counters are the numbers of calls recorded, every function leaves a
  record where each name is its prefix followed by the number of earlier calls with that
  prefix, and, when it returns, a visitor whose counters are again the numbers of calls
  recorded.
\<close>

lemma counted_cong: "counted v l \<Longrightarrow> freshVarCounters v' = freshVarCounters v \<Longrightarrow> counted v' l"
  by (simp add: counted_def currentCounter_def)

lemma numbered_snoc:
  assumes "numbered l"
  shows "numbered (l @ [(p, p @ showNat (count_list (map fst l) p))])"
  unfolding numbered_def
proof (intro allI impI)
  fix a
  assume "a < length (l @ [(p, p @ showNat (count_list (map fst l) p))])"
  then have "a < length l \<or> a = length l" by auto
  then show "snd ((l @ [(p, p @ showNat (count_list (map fst l) p))]) ! a)
      = fst ((l @ [(p, p @ showNat (count_list (map fst l) p))]) ! a)
        @ showNat (count_list (map fst (take a (l @ [(p, p @ showNat (count_list (map fst l) p))])))
                     (fst ((l @ [(p, p @ showNat (count_list (map fst l) p))]) ! a)))"
  proof
    assume "a < length l"
    with assms show ?thesis by (simp add: numbered_def nth_append)
  next
    assume "a = length l"
    then show ?thesis by simp
  qed
qed

lemma freshVarL_inv:
  assumes "counted v l" and "numbered l" and "freshVarL p v l = ((x, v1), l1)"
  shows "counted v1 l1 \<and> numbered l1 \<and> l1 = l @ [(p, x)] \<and> freshVar p v = (x, v1)"
proof -
  from assms(3) have f: "freshVar p v = (x, v1)" and l1: "l1 = l @ [(p, x)]"
    by (auto simp: freshVarL_def split: prod.splits)
  from f have x: "x = p @ showNat (currentCounter v p)"
    using fst_freshVar [of p v] by simp
  with assms(1) have x': "x = p @ showNat (count_list (map fst l) p)" by (simp add: counted_def)
  from f have c: "\<And>q. currentCounter v1 q = (if q = p then currentCounter v p + 1 else currentCounter v q)"
    using currentCounter_freshVar [of p v] by simp
  have "counted v1 l1" using assms(1) by (simp add: counted_def c l1)
  moreover have "numbered l1" unfolding l1 x' by (rule numbered_snoc [OF assms(2)])
  ultimately show ?thesis using l1 f by simp
qed

lemma freshSubsL_inv:
  "counted v l \<Longrightarrow> numbered l \<Longrightarrow> freshSubsL ns v l = ((ss, v'), l') \<Longrightarrow> counted v' l' \<and> numbered l'"
proof (induction ns arbitrary: v l ss v' l')
  case Nil
  then show ?case by simp
next
  case (Cons n ns)
  obtain x v1 l1 where f: "freshVarL ''v'' v l = ((x, v1), l1)" by (metis prod.collapse)
  obtain ts v2 l2 where g: "freshSubsL ns v1 l1 = ((ts, v2), l2)" by (metis prod.collapse)
  from Cons.prems(3) f g have e: "v' = v2" "l' = l2" by simp_all
  from freshVarL_inv [OF Cons.prems(1) Cons.prems(2) f] have "counted v1 l1" "numbered l1" by blast+
  from Cons.IH [OF this g] e show ?case by simp
qed

lemma newInstanceL_inv:
  assumes "counted v l" and "numbered l" and "newInstanceL d eff v l = (res, l')"
  shows "numbered l' \<and> (\<forall>r v'. res = Inr (r, v') \<longrightarrow> counted v' l')"
proof -
  obtain subs v1 l1 where g: "freshSubsL (effectNames d eff) v l = ((subs, v1), l1)"
    by (metis prod.collapse)
  from freshSubsL_inv [OF assms(1) assms(2) g] have i: "counted v1 l1" "numbered l1" by simp_all
  define v2 where "v2 = (case compose d (filter lambdaIntroduced subs) (substitutions v1) of
                    Inr s \<Rightarrow> v1\<lparr> substitutions := s \<rparr>
                  | Inl _ \<Rightarrow> v1)"
  have fc: "freshVarCounters v2 = freshVarCounters v1"
    by (simp add: v2_def split: sum.splits)
  from assms(3) g have l': "l' = l1"
    and res: "res = (case applySubstitution d subs eff of
               Inl err \<Rightarrow> Inl (FreshNamesError err)
             | Inr r \<Rightarrow> Inr (r, v2))"
    unfolding v2_def by (auto simp: newInstanceL_def Let_def)
  have "\<forall>r v'. res = Inr (r, v') \<longrightarrow> v' = v2"
    unfolding res by (simp split: sum.splits)
  moreover have "counted v2 l1" by (rule counted_cong [OF i(1) fc])
  ultimately show ?thesis using i(2) l' by blast
qed

lemma fetchSignatureL_inv:
  assumes "counted v l" and "numbered l" and "fetchSignatureL d opcode scope arity v l = (res, l')"
  shows "numbered l' \<and> (\<forall>r v'. res = Inr (r, v') \<longrightarrow> counted v' l')"
proof -
  from fetchSignature_found [of d opcode scope arity v]
  obtain found where b: "fetchSignatureL d opcode scope arity v l =
           (case found of
              Inl f \<Rightarrow> (Inl f, l)
            | Inr None \<Rightarrow> (Inl TypeError, l)
            | Inr (Some eff) \<Rightarrow>
                (case newInstanceL d eff v l of
                   (Inl f, calls1) \<Rightarrow> (Inl f, calls1)
                 | (Inr (r, v'), calls1) \<Rightarrow> (Inr (Inr r, v'), calls1)))"
    by blast
  show ?thesis
  proof (cases found)
    case (Inl f)
    with b assms show ?thesis by auto
  next
    case (Inr opt)
    show ?thesis
    proof (cases opt)
      case None
      with Inr b assms show ?thesis by auto
    next
      case (Some eff)
      obtain r l1 where n: "newInstanceL d eff v l = (r, l1)" by (cases "newInstanceL d eff v l")
      from newInstanceL_inv [OF assms(1) assms(2) n]
      have "numbered l1" "\<forall>r' v'. r = Inr (r', v') \<longrightarrow> counted v' l1" by simp_all
      with n Inr Some b assms(3) show ?thesis
        by (auto split: sum.splits prod.splits)
    qed
  qed
qed

lemma exitNameL_local:
  assumes "lookupCurrent d v n i = Inr (Some df)"
    and "kind df = ''param'' \<or> kind df = ''const'' \<or> kind df = ''var''"
    and "exitNameL d i n v l = (res, l')"
  shows "l' = l \<and> (\<forall>v'. res = Inr v' \<longrightarrow> freshVarCounters v' = freshVarCounters v)"
proof -
  consider "kind df = ''param''" | "kind df = ''const''" | "kind df = ''var''" using assms(2) by blast
  then show ?thesis
  proof cases
    case 1
    with assms(1) assms(3) show ?thesis
      by (auto simp: exitNameL_def split: option.splits if_splits)
  next
    case 2
    with assms(1) assms(3) show ?thesis
      by (auto simp: exitNameL_def)
  next
    case 3
    with assms(1) assms(3) show ?thesis
      by (auto simp: exitNameL_def)
  qed
qed

lemma exitNameL_operator:
  assumes "lookupCurrent d v n i = Inr (Some df)"
    and "kind df \<noteq> ''param''" and "kind df \<noteq> ''const''" and "kind df \<noteq> ''var''"
  shows "exitNameL d i n v l =
     (case fetchSignatureL d n i 2 v l of
               (Inl f, calls1) \<Rightarrow> (Inl f, calls1)
             | (Inr (Inl m, v1), calls1) \<Rightarrow> (Inr v1, calls1)
             | (Inr (Inr s, v1), calls1) \<Rightarrow>
                 (Inr (v1\<lparr> effects := AList.update i (Some s) (effects v1) \<rparr>), calls1))"
  using assms by (simp add: exitNameL_def)

lemma exitNameL_inv:
  assumes "counted v l" and "numbered l" and "exitNameL d i n v l = (res, l')"
  shows "numbered l' \<and> (\<forall>v'. res = Inr v' \<longrightarrow> counted v' l')"
proof (cases "lookupCurrent d v n i")
  case (Inl f)
  with assms show ?thesis by (auto simp: exitNameL_def)
next
  case (Inr found)
  show ?thesis
  proof (cases found)
    case None
    with Inr assms show ?thesis by (auto simp: exitNameL_def)
  next
    case (Some df)
    with Inr have lk: "lookupCurrent d v n i = Inr (Some df)" by simp
    show ?thesis
    proof (cases "kind df = ''param'' \<or> kind df = ''const'' \<or> kind df = ''var''")
      case True
      from exitNameL_local [OF lk True assms(3)]
      have "l' = l" and "\<forall>v'. res = Inr v' \<longrightarrow> freshVarCounters v' = freshVarCounters v"
        by blast+
      with assms(1) assms(2) show ?thesis by (blast intro: counted_cong)
    next
      case False
      obtain r l1 where f: "fetchSignatureL d n i 2 v l = (r, l1)"
        by (cases "fetchSignatureL d n i 2 v l")
      from fetchSignatureL_inv [OF assms(1) assms(2) f]
      have a: "numbered l1" "\<forall>r' v'. r = Inr (r', v') \<longrightarrow> counted v' l1" by simp_all
      from False have k: "kind df \<noteq> ''param''" "kind df \<noteq> ''const''" "kind df \<noteq> ''var''"
        by blast+
      have e: "(res, l') = (case r of
                 Inl f \<Rightarrow> (Inl f, l1)
               | Inr (Inl m, v1) \<Rightarrow> (Inr v1, l1)
               | Inr (Inr s, v1) \<Rightarrow>
                   (Inr (v1\<lparr> effects := AList.update i (Some s) (effects v1) \<rparr>), l1))"
        using exitNameL_operator [OF lk k, of l] assms(3) f by simp
      show ?thesis
      proof (cases r)
        case (Inl f)
        with e a show ?thesis by simp
      next
        case (Inr y)
        obtain sg v1 where y: "y = (sg, v1)" by (cases y)
        with a Inr have c1: "counted v1 l1" by simp
        from e Inr y have "l' = l1" and "\<forall>v'. res = Inr v' \<longrightarrow> freshVarCounters v' = freshVarCounters v1"
          by (cases sg; simp)+
        with a(1) c1 show ?thesis by (blast intro: counted_cong)
      qed
    qed
  qed
qed

lemma exitAppL_inv:
  assumes "counted v l" and "numbered l" and "exitAppL d i opcode args v l = (res, l')"
  shows "numbered l' \<and> (\<forall>v'. res = Inr v' \<longrightarrow> counted v' l')"
proof (cases "errors v \<noteq> []")
  case True
  with assms show ?thesis by (auto simp: exitAppL_def)
next
  case False
  obtain r l1 where f: "fetchSignatureL d opcode i (length args) v l = (r, l1)"
    by (cases "fetchSignatureL d opcode i (length args) v l")
  from fetchSignatureL_inv [OF assms(1) assms(2) f]
  have a: "numbered l1" "\<forall>r' v'. r = Inr (r', v') \<longrightarrow> counted v' l1" by simp_all
  show ?thesis
  proof (cases r)
    case (Inl x)
    with False f assms(3) a show ?thesis by (auto simp: exitAppL_def)
  next
    case (Inr y)
    obtain sg v1 where y: "y = (sg, v1)" by (cases y)
    with a Inr have c1: "counted v1 l1" by simp
    show ?thesis
    proof (cases sg)
      case (Inl m)
      with False f assms(3) Inr y have "l' = l1" "\<forall>v'. res = Inr v' \<longrightarrow> freshVarCounters v' = freshVarCounters v1"
        by (auto simp: exitAppL_def Let_def)
      with a c1 show ?thesis by (blast intro: counted_cong)
    next
      case (Inr signature)
      obtain x v2 l2 where fl: "freshVarL ''e'' v1 l1 = ((x, v2), l2)" by (metis prod.collapse)
      from freshVarL_inv [OF c1 a(1) fl] have c2: "counted v2 l2" "numbered l2" by blast+
      from False f assms(3) \<open>r = Inr y\<close> y Inr fl
      have "l' = l2" "\<forall>v'. res = Inr v' \<longrightarrow> freshVarCounters v' = freshVarCounters v2"
        by (auto simp: exitAppL_def Let_def split: option.splits sum.splits if_splits)
      with c2 show ?thesis by (blast intro: counted_cong)
    qed
  qed
qed

lemma callVisitorL_other:
  assumes "callVisitorL d c v l = (Inr v', l')"
  shows "(\<exists>i n. c = ExitName i n) \<or> (\<exists>i opcode args. c = ExitApp i opcode args)
     \<or> (l' = l \<and> freshVarCounters v' = freshVarCounters v)"
proof (cases c)
  case (EnterLambda i ps body)
  with assms show ?thesis by (auto dest: enterLambda_counter)
qed (use assms in \<open>auto simp: enterModuleDef_def exitModuleDef_def updateCurrentModule_def Let_def
      exitLiteral_def exitOpDef_def exitLet_def exitLambda_def
      split: option.splits sum.splits if_splits\<close>)

lemma callVisitorL_thrown:
  assumes "callVisitorL d c v l = (Inl f, l')"
  shows "(\<exists>i n. c = ExitName i n) \<or> (\<exists>i opcode args. c = ExitApp i opcode args) \<or> l' = l"
  using assms by (cases c) (simp_all del: callVisitor.simps)

lemma callVisitorL_inv:
  assumes "counted v l" and "numbered l" and "callVisitorL d c v l = (res, l')"
  shows "numbered l' \<and> (\<forall>v'. res = Inr v' \<longrightarrow> counted v' l')"
proof (cases "(\<exists>i n. c = ExitName i n) \<or> (\<exists>i opcode args. c = ExitApp i opcode args)")
  case True
  with assms show ?thesis by (auto dest: exitNameL_inv exitAppL_inv)
next
  case False
  show ?thesis
  proof (cases res)
    case (Inl f)
    with assms(3) False callVisitorL_thrown [of d c v l f l'] have "l' = l" by blast
    with Inl assms(2) show ?thesis by simp
  next
    case (Inr v')
    with assms(3) False callVisitorL_other [of d c v l v' l']
    have "l' = l" "freshVarCounters v' = freshVarCounters v" by blast+
    with Inr assms(1) assms(2) show ?thesis by (blast intro: counted_cong)
  qed
qed

lemma runCallbacksL_inv:
  "counted v l \<Longrightarrow> numbered l \<Longrightarrow> runCallbacksL d cs v l = (res, l') \<Longrightarrow>
   numbered l' \<and> (\<forall>v'. res = Inr v' \<longrightarrow> counted v' l')"
proof (induction cs arbitrary: v l)
  case Nil
  then show ?case by auto
next
  case (Cons c cs)
  obtain r l1 where c: "callVisitorL d c v l = (r, l1)" by (cases "callVisitorL d c v l")
  from callVisitorL_inv [OF Cons.prems(1) Cons.prems(2) c]
  have a: "numbered l1" "\<forall>v'. r = Inr v' \<longrightarrow> counted v' l1" by simp_all
  show ?case
  proof (cases r)
    case (Inl f)
    with c Cons.prems(3) a show ?thesis by auto
  next
    case (Inr v1)
    with c Cons.prems(3) have "runCallbacksL d cs v1 l1 = (res, l')" by simp
    with Cons.IH [of v1 l1] a Inr show ?thesis by simp
  qed
qed

lemma counted_newVisitor: "counted (newVisitor d sigs tables) []"
  by (simp add: counted_def currentCounter_newVisitor)

lemma numbered_Nil: "numbered []"
  by (simp add: numbered_def)

lemma numbered_unique:
  assumes "numbered l" and "a < b" and "b < length l" and "fst (l ! a) = fst (l ! b)"
  shows "snd (l ! a) \<noteq> snd (l ! b)"
proof -
  let ?ps = "map fst l"
  from assms have a: "a < length l" by simp
  have pa: "?ps ! a = fst (l ! a)" using a by simp
  have "count_list (take a ?ps) (?ps ! a) < count_list (take b ?ps) (?ps ! a)"
    using assms by (intro count_list_take_less) simp_all
  then have lt: "count_list (map fst (take a l)) (fst (l ! a)) < count_list (map fst (take b l)) (fst (l ! a))"
    by (simp add: take_map pa)
  from assms(1) a have na: "snd (l ! a) = fst (l ! a) @ showNat (count_list (map fst (take a l)) (fst (l ! a)))"
    by (simp add: numbered_def)
  from assms(1) assms(3) assms(4)
  have nb: "snd (l ! b) = fst (l ! a) @ showNat (count_list (map fst (take b l)) (fst (l ! a)))"
    by (simp add: numbered_def)
  from lt na nb show ?thesis by (auto dest: showNat_inj)
qed

text \<open>
  Claim C8. Within one call of \<open>inferEffects\<close>, no two calls of \<open>freshVar\<close> with the same
  prefix return the same name. \<open>calls\<close> is the record of all the calls of \<open>freshVar\<close> made
  while the callbacks \<open>cs\<close> run on a new visitor, whether the run returns or throws; for
  \<open>cs = walkModule m\<close> this is the run of \<open>inferEffects\<close>. Of any two calls with the same
  prefix, the later one returns a different name: the name of a call is the prefix followed by
  the number of earlier calls with that prefix, which is strictly larger for the later call.
  The counter of a prefix is 0 in a new visitor, the name returned is the prefix followed by
  the counter, each call adds one to the counter of its prefix, and at the end of a run that
  returns the counter of every prefix is the number of calls made with it: no callback lowers
  or restores a counter. The statement is for runs of at most \<open>2 ^ 53\<close> calls: there every
  counter is an integer that a JavaScript number holds exactly, with \<open>counter + 1\<close> exact, so
  the natural number of the model is the number of the code.
\<close>

theorem freshVar_names_unique:
  assumes "runCallbacksL d cs (newVisitor d sigs tables) [] = (outcome, calls)"
    and "length calls \<le> 2 ^ 53"
    and "a < b" and "b < length calls" and "fst (calls ! a) = fst (calls ! b)"
  shows "snd (calls ! a) \<noteq> snd (calls ! b)
    \<and> snd (calls ! b)
        = fst (calls ! b) @ showNat (count_list (map fst (take b calls)) (fst (calls ! b)))
    \<and> count_list (map fst (take a calls)) (fst (calls ! a))
        < count_list (map fst (take b calls)) (fst (calls ! b))
    \<and> count_list (map fst (take b calls)) (fst (calls ! b)) < 2 ^ 53
    \<and> runCallbacks d cs (newVisitor d sigs tables) = outcome
    \<and> (cs = walkModule m \<longrightarrow>
         inferEffects d sigs tables m =
           (case outcome of
              Inl f \<Rightarrow> Inl f
            | Inr visitor \<Rightarrow>
                if errors visitor \<noteq> [] then Inr (Inl (errors visitor))
                else Inr (Inr (effects visitor))))
    \<and> (\<forall>v. outcome = Inr v \<longrightarrow> (\<forall>p. currentCounter v p = count_list (map fst calls) p))
    \<and> fst (freshVar p w) = p @ showNat (currentCounter w p)
    \<and> currentCounter (snd (freshVar p w)) p = currentCounter w p + 1
    \<and> currentCounter (newVisitor d sigs tables) p = 0"
proof -
  from runCallbacksL_inv [OF counted_newVisitor numbered_Nil assms(1)]
  have n: "numbered calls" and c: "\<forall>v. outcome = Inr v \<longrightarrow> counted v calls" by simp_all
  have u: "snd (calls ! a) \<noteq> snd (calls ! b)"
    by (rule numbered_unique [OF n assms(3) assms(4) assms(5)])
  have nb: "snd (calls ! b)
        = fst (calls ! b) @ showNat (count_list (map fst (take b calls)) (fst (calls ! b)))"
    using n assms(4) by (simp add: numbered_def)
  have "count_list (take a (map fst calls)) (map fst calls ! a)
      < count_list (take b (map fst calls)) (map fst calls ! a)"
    using assms(3) assms(4) by (intro count_list_take_less) simp_all
  then have lt: "count_list (map fst (take a calls)) (fst (calls ! a))
        < count_list (map fst (take b calls)) (fst (calls ! b))"
    using assms(3) assms(4) assms(5) by (simp add: take_map)
  have "count_list (map fst (take b calls)) (fst (calls ! b)) \<le> length (map fst (take b calls))"
    by (rule count_le_length)
  also have "\<dots> < length calls" using assms(4) by simp
  finally have bd: "count_list (map fst (take b calls)) (fst (calls ! b)) < 2 ^ 53"
    using assms(2) by simp
  have e: "runCallbacks d cs (newVisitor d sigs tables) = outcome"
    using runCallbacksL_erase [of d cs "newVisitor d sigs tables" "[]"] assms(1) by simp
  then have ie: "cs = walkModule m \<longrightarrow>
         inferEffects d sigs tables m =
           (case outcome of
              Inl f \<Rightarrow> Inl f
            | Inr visitor \<Rightarrow>
                if errors visitor \<noteq> [] then Inr (Inl (errors visitor))
                else Inr (Inr (effects visitor)))"
    by (auto simp: inferEffects_def)
  from c have c': "\<forall>v. outcome = Inr v \<longrightarrow> (\<forall>p. currentCounter v p = count_list (map fst calls) p)"
    by (simp add: counted_def)
  have f: "fst (freshVar p w) = p @ showNat (currentCounter w p)" by (rule fst_freshVar)
  have g: "currentCounter (snd (freshVar p w)) p = currentCounter w p + 1"
    by (simp add: currentCounter_freshVar)
  have h: "currentCounter (newVisitor d sigs tables) p = 0" by (rule currentCounter_newVisitor)
  from u nb lt bd e ie c' f g h show ?thesis by blast
qed

theorem freshVar_names_unique_witness:
  "snd (runCallbacksL specCollaborators (walkModule twoCallsModule)
          (newVisitor specCollaborators builtins [''m'' \<mapsto> []]) [])
     = [(''v'', ''v0''), (''e'', ''e0''), (''v'', ''v1''), (''e'', ''e1'')]
   \<and> ''v0'' \<noteq> ''v1'' \<and> ''e0'' \<noteq> ''e1''"
proof -
  let ?run = "runCallbacksL specCollaborators (walkModule twoCallsModule)
                (newVisitor specCollaborators builtins [''m'' \<mapsto> []]) []"
  let ?calls = "[(''v'', ''v0''), (''e'', ''e0''), (''v'', ''v1''), (''e'', ''e1'')]"
  have calls: "snd ?run = ?calls"
    by (simp add: twoCallsModule_def visitor_defs instance_defs scenario_defs
          exitNameL_def exitAppL_def fetchSignatureL_def newInstanceL_def freshVarL_def
          showNat_digits)
  then have run: "?run = (fst ?run, ?calls)" by (metis prod.collapse)
  have bound: "length ?calls \<le> 2 ^ 53" by simp
  have "snd (?calls ! 0) \<noteq> snd (?calls ! 2)"
    by (rule freshVar_names_unique [OF run bound, THEN conjunct1]) simp_all
  moreover have "snd (?calls ! 1) \<noteq> snd (?calls ! 3)"
    by (rule freshVar_names_unique [OF run bound, THEN conjunct1]) simp_all
  ultimately show ?thesis using calls by simp
qed

section \<open>Name references\<close>

text \<open>
  Claim C7. A name that resolves to a definition of kind \<open>var\<close> gets the effect that reads
  exactly that name and updates nothing, with nothing temporal: \<open>exitName\<close> stores
  \<open>Concrete(read = [name], update = [], temporal = [])\<close> under the id of the name and
  records no error.
\<close>

theorem exitName_var:
  assumes "lookupCurrent d v name i = Inr (Some def)" and "kind def = ''var''"
  shows "exitName d i name v =
           Inr (v\<lparr> effects :=
                    AList.update i
                      (Some (Concrete (ConcreteVariables [name]) (ConcreteVariables []) (ConcreteVariables [])))
                      (effects v) \<rparr>)
    \<and> (\<forall>v'. exitName d i name v = Inr v' \<longrightarrow>
          getEffect (effects v') i
            = Some (Concrete (ConcreteVariables [name]) (ConcreteVariables []) (ConcreteVariables []))
          \<and> errors v' = errors v)"
  using assms by (simp add: exitName_def emptyVariables_def getEffect_update)

theorem exitName_var_witness:
  "exitName specCollaborators 1 ''x'' (visitorIn varLetTable) = Inr afterX
   \<and> getEffect (effects afterX) 1
       = Some (Concrete (ConcreteVariables [''x'']) (ConcreteVariables []) (ConcreteVariables []))"
proof -
  have h1: "lookupCurrent specCollaborators (visitorIn varLetTable) ''x'' 1
      = Inr (Some \<lparr> kind = ''var'', defIdentifier = ''x'', reference = Some 8 \<rparr>)"
    by (simp add: lookupCurrent_def visitorIn_def specCollaborators_def flatLookupValue_def varLetTable_def)
  have h2: "kind \<lparr> kind = ''var'', defIdentifier = ''x'', reference = Some 8 \<rparr> = ''var''"
    by simp
  from exitName_var [OF h1 h2, THEN conjunct1]
  show ?thesis
    by (simp add: afterX_def visitorIn_def readX_def newVisitor_def getEffect_def)
qed

text \<open>
  Claim C9. A name that resolves to a definition that is neither a parameter, a constant nor
  a state variable gets the signature that \<open>fetchSignature\<close> returns for the arity 2,
  whatever the operator's number of parameters: for a builtin, the stored effect is a fresh
  instance of its signature function applied to 2.
\<close>

theorem exitName_operator_arity_two:
  assumes "lookupCurrent d v name i = Inr (Some def)"
    and "kind def \<noteq> ''param''" and "kind def \<noteq> ''const''" and "kind def \<noteq> ''var''"
  shows "exitName d i name v =
           (case fetchSignature d name i 2 v of
              Inl f \<Rightarrow> Inl f
            | Inr (Inl m, v1) \<Rightarrow> Inr v1
            | Inr (Inr s, v1) \<Rightarrow> Inr (v1\<lparr> effects := AList.update i (Some s) (effects v1) \<rparr>))
    \<and> (case builtinSignatures v name of
          None \<Rightarrow> True
        | Some signatureFunction \<Rightarrow>
            exitName d i name v =
              (case newInstance d (signatureFunction 2) v of
                 Inl f \<Rightarrow> Inl f
               | Inr (r, v1) \<Rightarrow> Inr (v1\<lparr> effects := AList.update i (Some r) (effects v1) \<rparr>)))"
  using assms
  by (auto simp: exitName_def fetchSignature_def split: option.splits sum.splits prod.splits)

theorem exitName_operator_arity_two_witness:
  "exitName specCollaborators 1 ''and'' (visitorIn andTable)
     = Inr ((visitorIn andTable)
              \<lparr> freshVarCounters := [(''v'', 1)],
                 substitutions := [],
                 effects := [(1, Some (Arrow [Quantified ''v0'', Quantified ''v0''] (Quantified ''v0'')))] \<rparr>)"
proof -
  have h1: "lookupCurrent specCollaborators (visitorIn andTable) ''and'' 1
      = Inr (Some \<lparr> kind = ''def'', defIdentifier = ''and'', reference = None \<rparr>)"
    by (simp add: lookupCurrent_def visitorIn_def specCollaborators_def flatLookupValue_def andTable_def)
  have h2: "kind \<lparr> kind = ''def'', defIdentifier = ''and'', reference = None \<rparr> \<noteq> ''param''"
    and h3: "kind \<lparr> kind = ''def'', defIdentifier = ''and'', reference = None \<rparr> \<noteq> ''const''"
    and h4: "kind \<lparr> kind = ''def'', defIdentifier = ''and'', reference = None \<rparr> \<noteq> ''var''"
    by simp_all
  have n: "newInstance specCollaborators (Arrow (replicate 2 (Quantified ''a'')) (Quantified ''a''))
       (visitorIn andTable)
     = Inr (Arrow [Quantified ''v0'', Quantified ''v0''] (Quantified ''v0''),
            (visitorIn andTable)\<lparr> freshVarCounters := [(''v'', 1)], substitutions := [] \<rparr>)"
    by (simp add: visitor_defs instance_defs scenario_defs numeral_2_eq_2)
  from exitName_operator_arity_two [OF h1 h2 h3 h4, THEN conjunct2] n
  show ?thesis
    by (simp add: scenario_defs newVisitor_def)
qed

section \<open>Lambda parameters\<close>

lemma enterLambdaParam_errors:
  "enterLambdaParam d i body p v = Inr v' \<Longrightarrow> errors v' = errors v"
  by (auto simp: enterLambdaParam_def split: sum.splits option.splits)

lemma enterLambda_errors:
  "enterLambda d i ps body v = Inr v' \<Longrightarrow> errors v' = errors v"
proof (induction ps arbitrary: v)
  case Nil
  then show ?case by simp
next
  case (Cons p ps)
  then show ?case
    by (auto split: sum.splits dest: enterLambdaParam_errors)
qed

text \<open>
  Claim C10. When the lookup of a lambda parameter gives no definition, or a definition of the
  parameter without a reference (\<open>undefined\<close> or \<open>0n\<close>), \<open>enterLambda\<close> stores no placeholder
  for it and records no error: the visitor is unchanged. A later reference to the parameter,
  whose lookup gives the same answer, makes \<open>exitName\<close> throw, and the traversal ends with
  that thrown error.
\<close>

theorem enterLambda_param_without_reference:
  assumes "lookupCurrent d v p (exId body) = Inr def"
    and "truthyId (referenceOf def) = None"
    and "lookupCurrent d w p j = Inr def"
    and "case def of None \<Rightarrow> True | Some df \<Rightarrow> kind df = ''param''"
  shows "enterLambdaParam d i body p v = Inr v
    \<and> enterLambda d i [p] body v = Inr v
    \<and> (\<forall>ps v'. enterLambda d i ps body v = Inr v' \<longrightarrow> errors v' = errors v)
    \<and> exitName d j p w =
        Inl (case def of None \<Rightarrow> DefinitionNotFound p | Some df \<Rightarrow> ParamEffectNotFound p)
    \<and> runCallbacks d (ExitName j p # rest) w =
        Inl (case def of None \<Rightarrow> DefinitionNotFound p | Some df \<Rightarrow> ParamEffectNotFound p)"
  using assms
  by (auto simp: enterLambdaParam_def exitName_def referenceOf_def split: option.splits
      dest: enterLambda_errors)

theorem enterLambda_param_without_reference_witness:
  "enterLambda specCollaborators 2 [''x''] (TntName 1 ''x'') (visitorIn unresolvedParamTable)
     = Inr (visitorIn unresolvedParamTable)
   \<and> exitName specCollaborators 1 ''x'' (visitorIn unresolvedParamTable)
       = Inl (ParamEffectNotFound ''x'')
   \<and> inferEffects specCollaborators builtins [''m'' \<mapsto> unresolvedParamTable] identityModule
       = Inl (ParamEffectNotFound ''x'')"
proof -
  let ?def = "Some \<lparr> kind = ''param'', defIdentifier = ''x'', reference = None \<rparr>"
  have h1: "lookupCurrent specCollaborators (visitorIn unresolvedParamTable) ''x''
        (exId (TntName 1 ''x'')) = Inr ?def"
    by (simp add: lookupCurrent_def visitorIn_def specCollaborators_def flatLookupValue_def
        unresolvedParamTable_def)
  have h2: "truthyId (referenceOf ?def) = None"
    by (simp add: truthyId_def referenceOf_def)
  have h3: "lookupCurrent specCollaborators (visitorIn unresolvedParamTable) ''x'' 1 = Inr ?def"
    using h1 by simp
  have h4: "case ?def of None \<Rightarrow> True | Some df \<Rightarrow> kind df = ''param''"
    by simp
  have m: "inferEffects specCollaborators builtins [''m'' \<mapsto> unresolvedParamTable] identityModule
       = Inl (ParamEffectNotFound ''x'')"
    by (simp add: visitor_defs instance_defs scenario_defs identityModule_def unresolvedParamTable_def)
  from enterLambda_param_without_reference [OF h1 h2 h3 h4, of 2 "[]"] m
  show ?thesis by simp
qed

section \<open>Fresh instances\<close>

lemma freshNames_Suc: "freshNames c (Suc n) = (''v'' @ showNat c) # freshNames (Suc c) n"
proof -
  have "[0..<Suc n] = 0 # map Suc [0..<n]"
    by (simp add: upt_conv_Cons map_Suc_upt del: upt_Suc)
  then show ?thesis by (simp add: freshNames_def comp_def del: upt_Suc)
qed

lemma freshSubs_renaming:
  "freshSubs ns v = (ss, v') \<Longrightarrow>
     ss = renaming ns (currentCounter v ''v'')
     \<and> currentCounter v' ''v'' = currentCounter v ''v'' + length ns"
proof (induction ns arbitrary: v ss v')
  case Nil
  then show ?case by (simp add: renaming_def freshNames_def)
next
  case (Cons n ns)
  obtain x v1 where f: "freshVar ''v'' v = (x, v1)" by (cases "freshVar ''v'' v")
  obtain ts v2 where g: "freshSubs ns v1 = (ts, v2)" by (cases "freshSubs ns v1")
  from Cons.prems f g have ss: "ss = freshBinding n x # ts" and v': "v' = v2" by simp_all
  from f have x: "x = ''v'' @ showNat (currentCounter v ''v'')"
    using fst_freshVar [of "''v''" v] by simp
  from f have c: "currentCounter v1 ''v'' = Suc (currentCounter v ''v'')"
    using currentCounter_freshVar [of "''v''" v "''v''"] by simp
  from Cons.IH [OF g] c have ts: "ts = renaming ns (Suc (currentCounter v ''v''))"
    and c2: "currentCounter v2 ''v'' = Suc (currentCounter v ''v'') + length ns" by simp_all
  from ss ts x have "ss = renaming (n # ns) (currentCounter v ''v'')"
    by (simp add: renaming_def freshNames_Suc)
  with c2 v' show ?case by simp
qed

lemma freshNames_distinct: "distinct (freshNames c n)"
  by (auto simp: freshNames_def distinct_map inj_on_def dest: showNat_inj)

lemma freshNames_new: "k < c \<Longrightarrow> ''v'' @ showNat k \<notin> set (freshNames c n)"
  by (auto simp: freshNames_def dest: showNat_inj)

lemma bindingName_freshBinding: "bindingName (freshBinding n x) = snd n"
  by (cases n; cases "fst n") auto

lemma map2_freshBinding_names:
  "length names = length ys \<Longrightarrow> map bindingName (map2 freshBinding names ys) = map snd names"
  by (induction names ys rule: list_induct2) (simp_all add: bindingName_freshBinding)

lemma renaming_names: "map bindingName (renaming names c) = map snd names"
  using map2_freshBinding_names [of names "freshNames c (length names)"]
  by (simp add: renaming_def freshNames_def)

lemma renaming_builtin_only:
  "\<forall>n \<in> set names. \<not> startsWith (snd n) ''e_'' \<Longrightarrow> filter lambdaIntroduced (renaming names c) = []"
proof -
  assume a: "\<forall>n \<in> set names. \<not> startsWith (snd n) ''e_''"
  have "\<forall>s \<in> set (renaming names c). \<not> lambdaIntroduced s"
  proof
    fix s assume "s \<in> set (renaming names c)"
    then have "bindingName s \<in> set (map bindingName (renaming names c))" by simp
    then have "bindingName s \<in> snd ` set names" by (simp add: renaming_names)
    with a show "\<not> lambdaIntroduced s" by (auto simp: lambdaIntroduced_def)
  qed
  then show ?thesis by (simp add: filter_empty_conv)
qed

text \<open>
  Claim C5. \<open>newInstance\<close> renames every name that \<open>effectNames\<close> finds in the signature, in
  order, to the next names of the counter \<open>'v'\<close>: these are pairwise distinct and differ from
  every name the counter gave before. It throws when the renaming does not apply to the
  signature, and returns the renamed signature otherwise. The bindings it hands to \<open>compose\<close>
  for the running substitution are exactly those whose name starts with \<open>e_\<close>; the running
  substitution becomes the composition when \<open>compose\<close> succeeds and stays as it was when it
  fails. For a signature without such a name (a builtin's) nothing is handed over. Effects
  and errors are untouched, and the counter advances by the number of names, so the next
  instance gets other names.
\<close>

theorem newInstance_renames:
  "(\<exists>v1. freshSubs (effectNames d eff) v = (renaming (effectNames d eff) (currentCounter v ''v''), v1)
      \<and> newInstance d eff v =
          (case applySubstitution d (renaming (effectNames d eff) (currentCounter v ''v'')) eff of
             Inl err \<Rightarrow> Inl (FreshNamesError err)
           | Inr r \<Rightarrow>
               Inr (r, v1\<lparr> substitutions :=
                            (case compose d
                                    (filter (\<lambda>s. startsWith (bindingName s) ''e_'')
                                       (renaming (effectNames d eff) (currentCounter v ''v'')))
                                    (substitutions v) of
                               Inr s \<Rightarrow> s
                             | Inl err \<Rightarrow> substitutions v) \<rparr>))
      \<and> effects v1 = effects v \<and> errors v1 = errors v \<and> substitutions v1 = substitutions v
      \<and> currentCounter v1 ''v'' = currentCounter v ''v'' + length (effectNames d eff))
   \<and> map bindingName (renaming (effectNames d eff) (currentCounter v ''v'')) = map snd (effectNames d eff)
   \<and> renaming (effectNames d eff) (currentCounter v ''v'')
        = map2 freshBinding (effectNames d eff)
            (freshNames (currentCounter v ''v'') (length (effectNames d eff)))
   \<and> distinct (freshNames (currentCounter v ''v'') (length (effectNames d eff)))
   \<and> (\<forall>k < currentCounter v ''v''.
         ''v'' @ showNat k \<notin> set (freshNames (currentCounter v ''v'') (length (effectNames d eff))))
   \<and> ((\<forall>n \<in> set (effectNames d eff). \<not> startsWith (snd n) ''e_'') \<longrightarrow>
         filter (\<lambda>s. startsWith (bindingName s) ''e_'')
           (renaming (effectNames d eff) (currentCounter v ''v'')) = [])"
proof -
  obtain ss v1 where f: "freshSubs (effectNames d eff) v = (ss, v1)"
    by (cases "freshSubs (effectNames d eff) v")
  from freshSubs_renaming [OF f]
  have ss: "ss = renaming (effectNames d eff) (currentCounter v ''v'')"
    and c: "currentCounter v1 ''v'' = currentCounter v ''v'' + length (effectNames d eff)"
    by simp_all
  from freshSubs_frame [OF f]
  have fr: "effects v1 = effects v" "errors v1 = errors v" "substitutions v1 = substitutions v"
    by simp_all
  have l: "lambdaIntroduced = (\<lambda>s. startsWith (bindingName s) ''e_'')"
    by (simp add: lambdaIntroduced_def fun_eq_iff)
  have n: "newInstance d eff v =
          (case applySubstitution d ss eff of
             Inl err \<Rightarrow> Inl (FreshNamesError err)
           | Inr r \<Rightarrow>
               Inr (r, v1\<lparr> substitutions :=
                            (case compose d (filter (\<lambda>s. startsWith (bindingName s) ''e_'') ss)
                                    (substitutions v) of
                               Inr s \<Rightarrow> s
                             | Inl err \<Rightarrow> substitutions v) \<rparr>))"
    using f fr by (simp add: newInstance_def l Let_def split: sum.splits)
  have first: "\<exists>v1. freshSubs (effectNames d eff) v = (renaming (effectNames d eff) (currentCounter v ''v''), v1)
      \<and> newInstance d eff v =
          (case applySubstitution d (renaming (effectNames d eff) (currentCounter v ''v'')) eff of
             Inl err \<Rightarrow> Inl (FreshNamesError err)
           | Inr r \<Rightarrow>
               Inr (r, v1\<lparr> substitutions :=
                            (case compose d
                                    (filter (\<lambda>s. startsWith (bindingName s) ''e_'')
                                       (renaming (effectNames d eff) (currentCounter v ''v'')))
                                    (substitutions v) of
                               Inr s \<Rightarrow> s
                             | Inl err \<Rightarrow> substitutions v) \<rparr>))
      \<and> effects v1 = effects v \<and> errors v1 = errors v \<and> substitutions v1 = substitutions v
      \<and> currentCounter v1 ''v'' = currentCounter v ''v'' + length (effectNames d eff)"
    using f n fr c unfolding ss by blast
  have last: "(\<forall>n \<in> set (effectNames d eff). \<not> startsWith (snd n) ''e_'') \<longrightarrow>
         filter (\<lambda>s. startsWith (bindingName s) ''e_'')
           (renaming (effectNames d eff) (currentCounter v ''v'')) = []"
    using renaming_builtin_only [of "effectNames d eff" "currentCounter v ''v''"] unfolding l by blast
  have names: "map bindingName (renaming (effectNames d eff) (currentCounter v ''v''))
      = map snd (effectNames d eff)"
    by (rule renaming_names)
  have shape: "renaming (effectNames d eff) (currentCounter v ''v'')
        = map2 freshBinding (effectNames d eff)
            (freshNames (currentCounter v ''v'') (length (effectNames d eff)))"
    by (simp add: renaming_def)
  have dist: "distinct (freshNames (currentCounter v ''v'') (length (effectNames d eff)))"
    by (rule freshNames_distinct)
  have new: "\<forall>k < currentCounter v ''v''.
         ''v'' @ showNat k \<notin> set (freshNames (currentCounter v ''v'') (length (effectNames d eff)))"
    using freshNames_new by blast
  from first names shape dist new last show ?thesis by blast
qed

theorem newInstance_renames_witness:
  "newInstance specCollaborators (Arrow [Quantified ''e_x_5'', readVariables ''r1''] (Quantified ''e_x_5''))
     (visitorIn [])
     = Inr (Arrow [Quantified ''v1'', readVariables ''v0''] (Quantified ''v1''),
            (visitorIn [])\<lparr> freshVarCounters := [(''v'', 2)],
                             substitutions := [EffectBinding ''e_x_5'' (Quantified ''v1'')] \<rparr>)
   \<and> freshNames 0 2 = [''v0'', ''v1'']"
  using newInstance_renames [of specCollaborators
      "Arrow [Quantified ''e_x_5'', readVariables ''r1''] (Quantified ''e_x_5'')" "visitorIn []"]
  by (simp add: visitor_defs instance_defs scenario_defs freshNames_def renaming_def numeral_2_eq_2)

section \<open>Applications\<close>

lemma those_map_Some: "those (map Some xs) = Some xs"
  by (induction xs) simp_all

lemma rewriteEffect_pair:
  "rewriteEffect d s =
     (\<lambda>(k, x). (k, map_option
        (\<lambda>e0. case applySubstitution d s e0 of Inr e1 \<Rightarrow> e1 | Inl err \<Rightarrow> e0) x))"
  by (auto simp: rewriteEffect_def fun_eq_iff split: option.splits sum.splits)

lemma getEffect_rewrite:
  "getEffect (map (rewriteEffect d s) m) k =
     (case getEffect m k of
        None \<Rightarrow> None
      | Some e0 \<Rightarrow> Some (case applySubstitution d s e0 of Inr e1 \<Rightarrow> e1 | Inl err \<Rightarrow> e0))"
  by (simp add: getEffect_def rewriteEffect_pair map_of_map split: option.splits)

lemma fst_rewriteEffect: "fst (rewriteEffect d s entry) = fst entry"
  by (cases entry) (auto simp: rewriteEffect_def split: option.splits sum.splits)

lemma hasEffect_rewrite: "hasEffect (map (rewriteEffect d s) m) k = hasEffect m k"
  by (simp add: hasEffect_keys image_image fst_rewriteEffect)

text \<open>
  Claim C1. For an application visited while no error is recorded, whose arguments all have
  an effect, whose fetched signature unifies with the arrow from the arguments' effects to
  the fresh result variable, and where the composition with the running substitution and
  its application to the result variable succeed: the running substitution becomes the
  composition; every stored effect is replaced in place by the composition applied to it
  (and kept where the application fails); and the effect of the application node is the
  composition applied to the result variable. No error is recorded.
\<close>

theorem exitApp_success:
  assumes "errors v = []"
    and "fetchSignature d opcode i (length args) v = Inr (Inr signature, v1)"
    and "map (\<lambda>a. getEffect (effects v) (exId a)) args = map Some params"
    and "unify d signature (Arrow params (Quantified (''e'' @ showNat (currentCounter v1 ''e'')))) = Inr s0"
    and "compose d s0 (substitutions v1) = Inr s"
    and "\<not> list_ex (\<lambda>entry. snd entry = None) (effects v)"
    and "applySubstitution d s (Quantified (''e'' @ showNat (currentCounter v1 ''e''))) = Inr e"
  shows "\<exists>v'. exitApp d i opcode args v = Inr v'
      \<and> substitutions v' = s
      \<and> effects v' = AList.update i (Some e) (map (rewriteEffect d s) (effects v))
      \<and> errors v' = []
      \<and> getEffect (effects v') i = Some e
      \<and> (\<forall>k e0. k \<noteq> i \<longrightarrow> getEffect (effects v) k = Some e0 \<longrightarrow>
            getEffect (effects v') k
              = Some (case applySubstitution d s e0 of Inr e1 \<Rightarrow> e1 | Inl err \<Rightarrow> e0))
      \<and> (\<forall>k. k \<noteq> i \<longrightarrow> hasEffect (effects v') k = hasEffect (effects v) k)"
proof -
  from fetchSignature_frame [OF assms(2)]
  have fr: "effects v1 = effects v" "errors v1 = errors v" by simp_all
  define x where "x = ''e'' @ showNat (currentCounter v1 ''e'')"
  define v2 where "v2 = v1\<lparr> freshVarCounters :=
      AList.update ''e'' (currentCounter v1 ''e'' + 1) (freshVarCounters v1) \<rparr>"
  have fv: "freshVar ''e'' v1 = (x, v2)"
    by (simp add: freshVar_def x_def v2_def Let_def)
  have v2: "effects v2 = effects v" "errors v2 = []" "substitutions v2 = substitutions v1"
    using fr assms(1) by (simp_all add: v2_def)
  have th: "those (map (\<lambda>a. getEffect (effects v) (exId a)) args) = Some params"
    using assms(3) by (simp add: those_map_Some)
  define v' where "v' = v2\<lparr> substitutions := s,
      effects := AList.update i (Some e) (map (rewriteEffect d s) (effects v)) \<rparr>"
  have u: "unify d signature (Arrow params (Quantified x)) = Inr s0"
    using assms(4) by (simp add: x_def)
  have cp: "compose d s0 (substitutions v2) = Inr s"
    using assms(5) v2 by simp
  have ap: "applySubstitution d s (Quantified x) = Inr e"
    using assms(7) by (simp add: x_def)
  have run: "exitApp d i opcode args v = Inr v'"
    by (simp add: exitApp_def Let_def assms(1) assms(2) fv th u cp ap assms(6) chain_def v'_def v2(1))
  have a: "substitutions v' = s" "errors v' = []"
    "effects v' = AList.update i (Some e) (map (rewriteEffect d s) (effects v))"
    using v2 by (simp_all add: v'_def)
  have b: "getEffect (effects v') i = Some e"
    by (simp add: a getEffect_update)
  have c: "\<forall>k e0. k \<noteq> i \<longrightarrow> getEffect (effects v) k = Some e0 \<longrightarrow>
            getEffect (effects v') k
              = Some (case applySubstitution d s e0 of Inr e1 \<Rightarrow> e1 | Inl err \<Rightarrow> e0)"
    by (simp add: a getEffect_update getEffect_rewrite)
  have e: "\<forall>k. k \<noteq> i \<longrightarrow> hasEffect (effects v') k = hasEffect (effects v) k"
    by (simp add: a hasEffect_update hasEffect_rewrite)
  from run a b c e show ?thesis by blast
qed

theorem exitApp_success_witness:
  "\<exists>v'. exitApp specCollaborators 2 ''not'' [TntName 1 ''p''] insideLambda = Inr v'
      \<and> substitutions v'
          = [EffectBinding ''e_p_5'' (readVariables ''v0''), EffectBinding ''e0'' (readVariables ''v0'')]
      \<and> effects v'
          = [(5, Some (readVariables ''v0'')), (1, Some (readVariables ''v0'')),
             (2, Some (readVariables ''v0''))]
      \<and> errors v' = []"
proof -
  let ?v1 = "insideLambda\<lparr> freshVarCounters := [(''v'', 1)], substitutions := [] \<rparr>"
  let ?s = "[EffectBinding ''e_p_5'' (readVariables ''v0''), EffectBinding ''e0'' (readVariables ''v0'')]"
  have h1: "errors insideLambda = []"
    by (simp add: scenario_defs newVisitor_def)
  have h2: "fetchSignature specCollaborators ''not'' 2 (length [TntName 1 ''p'']) insideLambda
      = Inr (Inr (Arrow [readVariables ''v0''] (readVariables ''v0'')), ?v1)"
    by (simp add: scenario_defs visitor_defs instance_defs)
  have h3: "map (\<lambda>a. getEffect (effects insideLambda) (exId a)) [TntName 1 ''p'']
      = map Some [Quantified ''e_p_5'']"
    by (simp add: scenario_defs getEffect_def)
  have c: "''e'' @ showNat (currentCounter ?v1 ''e'') = ''e0''"
    by (simp add: scenario_defs newVisitor_def currentCounter_def showNat_digits)
  have h4: "unify specCollaborators (Arrow [readVariables ''v0''] (readVariables ''v0''))
       (Arrow [Quantified ''e_p_5''] (Quantified (''e'' @ showNat (currentCounter ?v1 ''e'')))) = Inr ?s"
    unfolding c by (simp add: instance_defs chain_def readVariables_def emptyVariables_def)
  have h5: "compose specCollaborators ?s (substitutions ?v1) = Inr ?s"
    by (simp add: instance_defs)
  have h6: "\<not> list_ex (\<lambda>entry. snd entry = None) (effects insideLambda)"
    by (simp add: scenario_defs)
  have h7: "applySubstitution specCollaborators ?s (Quantified (''e'' @ showNat (currentCounter ?v1 ''e'')))
      = Inr (readVariables ''v0'')"
    unfolding c by (simp add: instance_defs)
  from exitApp_success [OF h1 h2 h3 h4 h5 h6 h7]
  obtain v' where r: "exitApp specCollaborators 2 ''not'' [TntName 1 ''p''] insideLambda = Inr v'"
    and s: "substitutions v' = ?s"
    and e: "effects v' = AList.update 2 (Some (readVariables ''v0''))
               (map (rewriteEffect specCollaborators ?s) (effects insideLambda))"
    and n: "errors v' = []"
    by blast
  have "AList.update 2 (Some (readVariables ''v0''))
          (map (rewriteEffect specCollaborators ?s) (effects insideLambda))
        = [(5, Some (readVariables ''v0'')), (1, Some (readVariables ''v0'')),
           (2, Some (readVariables ''v0''))]"
    by (simp add: scenario_defs rewriteEffect_def instance_defs)
  with r s e n show ?thesis by simp
qed

section \<open>Errors during the traversal\<close>

lemma exitName_errors: "exitName d i n v = Inr v' \<Longrightarrow> errors v' = errors v"
  by (auto simp: exitName_def split: sum.splits option.splits if_splits prod.splits
      dest: fetchSignature_frame)

lemma exitName_keys: "exitName d i n v = Inr v' \<Longrightarrow> hasEffect (effects v) k \<Longrightarrow> hasEffect (effects v') k"
  by (auto simp: exitName_def hasEffect_update split: sum.splits option.splits if_splits prod.splits
      dest: fetchSignature_frame)

lemma exitApp_errors: "exitApp d i opcode args v = Inr v' \<Longrightarrow> errors v = [] \<or> errors v' = errors v"
  by (simp add: exitApp_def split: if_splits)

lemma freshVar_pair: "freshVar p v = (x, v2) \<Longrightarrow> effects v2 = effects v"
  using freshVar_frame(1) [of p v] by simp

lemma exitApp_keys:
  assumes "exitApp d i opcode args v = Inr v'" and "hasEffect (effects v) k"
  shows "hasEffect (effects v') k"
proof (cases "errors v \<noteq> []")
  case True
  with assms show ?thesis by (simp add: exitApp_def)
next
  case False
  then have ne: "errors v = []" by simp
  show ?thesis
  proof (cases "fetchSignature d opcode i (length args) v")
    case (Inl f)
    with assms ne show ?thesis by (simp add: exitApp_def)
  next
    case (Inr r)
    obtain sg v1 where r: "r = (sg, v1)" by (cases r)
    from fetchSignature_frame Inr r have fr: "effects v1 = effects v" by blast
    obtain x v2 where fv: "freshVar ''e'' v1 = (x, v2)" by (cases "freshVar ''e'' v1")
    from freshVar_pair [OF fv] fr have v2: "effects v2 = effects v" by simp
    from assms ne Inr r fv v2 fr show ?thesis
      by (auto simp: exitApp_def Let_def hasEffect_update hasEffect_rewrite
          split: sum.splits option.splits if_splits)
  qed
qed

lemma enterLambdaParam_keys:
  "enterLambdaParam d i body p v = Inr v' \<Longrightarrow> hasEffect (effects v) k \<Longrightarrow> hasEffect (effects v') k"
  by (auto simp: enterLambdaParam_def hasEffect_update split: sum.splits option.splits)

lemma enterLambda_keys:
  "enterLambda d i ps body v = Inr v' \<Longrightarrow> hasEffect (effects v) k \<Longrightarrow> hasEffect (effects v') k"
proof (induction ps arbitrary: v)
  case Nil
  then show ?case by simp
next
  case (Cons p ps)
  then show ?case
    by (auto split: sum.splits dest: enterLambdaParam_keys)
qed

lemma callVisitor_errors:
  "callVisitor d c v = Inr v' \<Longrightarrow> errors v = [] \<or> errors v' = errors v"
proof (cases c)
  case (ExitName i n)
  then show "callVisitor d c v = Inr v' \<Longrightarrow> ?thesis" by (auto dest: exitName_errors)
next
  case (ExitApp i opcode args)
  then show "callVisitor d c v = Inr v' \<Longrightarrow> ?thesis" by (auto dest: exitApp_errors)
next
  case (EnterLambda i ps body)
  then show "callVisitor d c v = Inr v' \<Longrightarrow> ?thesis" by (auto dest: enterLambda_errors)
qed (auto simp: enterModuleDef_def exitModuleDef_def updateCurrentModule_def Let_def
      exitLiteral_def exitOpDef_def exitLet_def exitLambda_def
      split: option.splits sum.splits if_splits)

lemma callVisitor_keys:
  "callVisitor d c v = Inr v' \<Longrightarrow> hasEffect (effects v) k \<Longrightarrow> hasEffect (effects v') k"
proof (cases c)
  case (ExitName i n)
  then show "callVisitor d c v = Inr v' \<Longrightarrow> hasEffect (effects v) k \<Longrightarrow> ?thesis"
    by (auto dest: exitName_keys)
next
  case (ExitApp i opcode args)
  then show "callVisitor d c v = Inr v' \<Longrightarrow> hasEffect (effects v) k \<Longrightarrow> ?thesis"
    by (auto dest: exitApp_keys)
next
  case (EnterLambda i ps body)
  then show "callVisitor d c v = Inr v' \<Longrightarrow> hasEffect (effects v) k \<Longrightarrow> ?thesis"
    by (auto dest: enterLambda_keys)
qed (auto simp: enterModuleDef_def exitModuleDef_def updateCurrentModule_def Let_def
      exitLiteral_def exitOpDef_def exitLet_def exitLambda_def hasEffect_update
      split: option.splits sum.splits if_splits)

lemma runCallbacks_errors:
  "runCallbacks d cs v = Inr v' \<Longrightarrow> errors v = [] \<or> errors v' = errors v"
proof (induction cs arbitrary: v)
  case Nil
  then show ?case by simp
next
  case (Cons c cs)
  then obtain v1 where c: "callVisitor d c v = Inr v1" and r: "runCallbacks d cs v1 = Inr v'"
    by (auto split: sum.splits)
  from callVisitor_errors [OF c] Cons.IH [OF r] show ?case by auto
qed

lemma runCallbacks_keys:
  "runCallbacks d cs v = Inr v' \<Longrightarrow> hasEffect (effects v) k \<Longrightarrow> hasEffect (effects v') k"
proof (induction cs arbitrary: v)
  case Nil
  then show ?case by simp
next
  case (Cons c cs)
  then obtain v1 where c: "callVisitor d c v = Inr v1" and r: "runCallbacks d cs v1 = Inr v'"
    by (auto split: sum.splits)
  from callVisitor_keys [OF c] Cons.prems(2) Cons.IH [OF r] show ?case by auto
qed

lemma runCallbacks_append:
  "runCallbacks d (pre @ post) v =
     (case runCallbacks d pre v of Inl f \<Rightarrow> Inl f | Inr v1 \<Rightarrow> runCallbacks d post v1)"
  by (induction pre arbitrary: v) (auto split: sum.splits)

lemma callVisitor_one_error:
  "callVisitor d c v = Inr v' \<Longrightarrow> errors v = [] \<Longrightarrow> length (errors v') \<le> 1"
proof (cases c)
  case (ExitName i n)
  then show "callVisitor d c v = Inr v' \<Longrightarrow> errors v = [] \<Longrightarrow> ?thesis"
    by (auto dest: exitName_errors)
next
  case (ExitApp i opcode args)
  assume a: "callVisitor d c v = Inr v'" and ne: "errors v = []"
  show ?thesis
  proof (cases "fetchSignature d opcode i (length args) v")
    case (Inl f)
    with a ne ExitApp show ?thesis by (simp add: exitApp_def)
  next
    case (Inr r)
    obtain sg v1 where r: "r = (sg, v1)" by (cases r)
    from fetchSignature_frame Inr r ne have e1: "errors v1 = []" by fastforce
    obtain x v2 where fv: "freshVar ''e'' v1 = (x, v2)" by (cases "freshVar ''e'' v1")
    from fv e1 have e2: "errors v2 = []" using freshVar_frame(2) [of "''e''" v1] by simp
    from a ne ExitApp Inr r fv e1 e2 show ?thesis
      by (auto simp: exitApp_def Let_def split: sum.splits option.splits if_splits)
  qed
next
  case (EnterLambda i ps body)
  then show "callVisitor d c v = Inr v' \<Longrightarrow> errors v = [] \<Longrightarrow> ?thesis"
    by (auto dest: enterLambda_errors)
qed (auto simp: enterModuleDef_def exitModuleDef_def updateCurrentModule_def Let_def
      exitLiteral_def exitOpDef_def exitLet_def exitLambda_def
      split: option.splits sum.splits if_splits)

lemma runCallbacks_one_error:
  "runCallbacks d cs v = Inr v' \<Longrightarrow> length (errors v) \<le> 1 \<Longrightarrow> length (errors v') \<le> 1"
proof (induction cs arbitrary: v)
  case Nil
  then show ?case by simp
next
  case (Cons c cs)
  then obtain v1 where c: "callVisitor d c v = Inr v1" and r: "runCallbacks d cs v1 = Inr v'"
    by (auto split: sum.splits)
  have "length (errors v1) \<le> 1"
  proof (cases "errors v = []")
    case True
    from callVisitor_one_error [OF c True] show ?thesis .
  next
    case False
    with callVisitor_errors [OF c] Cons.prems(2) show ?thesis by simp
  qed
  from Cons.IH [OF r this] show ?case .
qed

lemma twoDefs_run:
  "runCallbacks specCollaborators (walkModule twoDefsModule)
     (newVisitor specCollaborators builtins [''m'' \<mapsto> []]) = Inr afterTwoDefs"
  by (simp add: visitor_defs instance_defs scenario_defs twoDefsModule_def afterTwoDefs_def)

text \<open>
  Claim C4. When the traversal returns, \<open>inferEffects\<close> returns the error map when it is not
  empty and the effect map otherwise. An error recorded at any point of the traversal is in
  the final error map with the same tree, and a node that has an effect at any point of the
  traversal still has one in the final effect map; so the error map is returned exactly
  when some node recorded an error during the traversal.
\<close>

theorem inferEffects_returns_all_errors:
  assumes "runCallbacks d (walkModule m) (newVisitor d sigs tables) = Inr v"
  shows "inferEffects d sigs tables m
           = Inr (if errors v \<noteq> [] then Inl (errors v) else Inr (effects v))
    \<and> (\<forall>pre post v1. walkModule m = pre @ post \<longrightarrow>
          runCallbacks d pre (newVisitor d sigs tables) = Inr v1 \<longrightarrow>
            (\<forall>k e. map_of (errors v1) k = Some e \<longrightarrow> map_of (errors v) k = Some e)
            \<and> (\<forall>k. hasEffect (effects v1) k \<longrightarrow> hasEffect (effects v) k))
    \<and> ((\<exists>errs. inferEffects d sigs tables m = Inr (Inl errs))
         \<longleftrightarrow> (\<exists>pre post v1. walkModule m = pre @ post
               \<and> runCallbacks d pre (newVisitor d sigs tables) = Inr v1 \<and> errors v1 \<noteq> []))"
proof -
  have r: "inferEffects d sigs tables m
           = Inr (if errors v \<noteq> [] then Inl (errors v) else Inr (effects v))"
    using assms by (simp add: inferEffects_def)
  have p: "\<And>pre post v1. walkModule m = pre @ post \<Longrightarrow>
      runCallbacks d pre (newVisitor d sigs tables) = Inr v1 \<Longrightarrow> runCallbacks d post v1 = Inr v"
    using assms by (simp add: runCallbacks_append)
  have mono: "\<forall>pre post v1. walkModule m = pre @ post \<longrightarrow>
          runCallbacks d pre (newVisitor d sigs tables) = Inr v1 \<longrightarrow>
            (\<forall>k e. map_of (errors v1) k = Some e \<longrightarrow> map_of (errors v) k = Some e)
            \<and> (\<forall>k. hasEffect (effects v1) k \<longrightarrow> hasEffect (effects v) k)"
  proof (intro allI impI)
    fix pre post v1
    assume w: "walkModule m = pre @ post"
      and q: "runCallbacks d pre (newVisitor d sigs tables) = Inr v1"
    from p [OF w q] have post: "runCallbacks d post v1 = Inr v" .
    from runCallbacks_errors [OF post] runCallbacks_keys [OF post]
    show "(\<forall>k e. map_of (errors v1) k = Some e \<longrightarrow> map_of (errors v) k = Some e)
            \<and> (\<forall>k. hasEffect (effects v1) k \<longrightarrow> hasEffect (effects v) k)"
      by auto
  qed
  have iff: "(\<exists>errs. inferEffects d sigs tables m = Inr (Inl errs))
         \<longleftrightarrow> (\<exists>pre post v1. walkModule m = pre @ post
               \<and> runCallbacks d pre (newVisitor d sigs tables) = Inr v1 \<and> errors v1 \<noteq> [])"
  proof
    assume "\<exists>errs. inferEffects d sigs tables m = Inr (Inl errs)"
    with r have "errors v \<noteq> []" by (auto split: if_splits)
    with assms have "walkModule m = walkModule m @ []
        \<and> runCallbacks d (walkModule m) (newVisitor d sigs tables) = Inr v \<and> errors v \<noteq> []"
      by simp
    then show "\<exists>pre post v1. walkModule m = pre @ post
               \<and> runCallbacks d pre (newVisitor d sigs tables) = Inr v1 \<and> errors v1 \<noteq> []"
      by blast
  next
    assume "\<exists>pre post v1. walkModule m = pre @ post
               \<and> runCallbacks d pre (newVisitor d sigs tables) = Inr v1 \<and> errors v1 \<noteq> []"
    then obtain pre post v1 where w: "walkModule m = pre @ post"
      and q: "runCallbacks d pre (newVisitor d sigs tables) = Inr v1" and ne: "errors v1 \<noteq> []"
      by blast
    from p [OF w q] have "runCallbacks d post v1 = Inr v" .
    from runCallbacks_errors [OF this] ne have "errors v \<noteq> []" by auto
    with r show "\<exists>errs. inferEffects d sigs tables m = Inr (Inl errs)" by simp
  qed
  from r mono iff show ?thesis by blast
qed

theorem inferEffects_returns_all_errors_witness:
  "inferEffects specCollaborators builtins [''m'' \<mapsto> []] twoDefsModule
     = Inr (Inl [(3, ErrorTree None
                      ''Trying to infer effect for operator application in not(true, false)''
                      [ErrorTree (Some ''Expected the same number of parameters'')
                         ''Trying to unify effects'' []])])"
  using inferEffects_returns_all_errors [OF twoDefs_run, THEN conjunct1]
  by (simp add: afterTwoDefs_def)

lemma exitApp_skipped: "errors v \<noteq> [] \<Longrightarrow> exitApp d i opcode args v = Inr v"
  by (simp add: exitApp_def)

text \<open>
  Claim C2. The code skips an application whenever any error is recorded in the run, not only
  when one of its own arguments has one (\<open>exitApp_skipped\<close>). In \<open>twoDefsModule\<close> the
  application of the first definition (node 3) fails with an arity mismatch; the independent,
  well-formed application of the second definition (node 7) is then skipped and gets no
  effect, although the same definition alone (\<open>secondDefModule\<close>) gets one.
\<close>

theorem unrelated_error_suppresses_application:
  "runCallbacks specCollaborators (walkModule twoDefsModule)
      (newVisitor specCollaborators builtins [''m'' \<mapsto> []]) = Inr afterTwoDefs
   \<and> map fst (errors afterTwoDefs) = [3]
   \<and> map fst (effects afterTwoDefs) = [1, 2, 6]
   \<and> getEffect (effects afterTwoDefs) 7 = None
   \<and> inferEffects specCollaborators builtins [''m'' \<mapsto> []] secondDefModule
       = Inr (Inr [(6, Some pureEffect), (7, Some pureEffect), (8, Some pureEffect)])"
proof -
  have a: "map fst (errors afterTwoDefs) = [3]" "map fst (effects afterTwoDefs) = [1, 2, 6]"
    "getEffect (effects afterTwoDefs) 7 = None"
    by (simp_all add: afterTwoDefs_def getEffect_def)
  have b: "inferEffects specCollaborators builtins [''m'' \<mapsto> []] secondDefModule
       = Inr (Inr [(6, Some pureEffect), (7, Some pureEffect), (8, Some pureEffect)])"
    by (simp add: visitor_defs instance_defs scenario_defs secondDefModule_def)
  from twoDefs_run a b show ?thesis by simp
qed

lemma fetchSignature_never_left:
  "fetchSignature d opcode scope arity v \<noteq> Inr (Inl m, v')"
  by (auto simp: fetchSignature_def Let_def split: option.splits sum.splits if_splits prod.splits)

lemma fetchSignature_unresolved:
  "builtinSignatures v opcode = None \<Longrightarrow> lookupCurrent d v opcode scope = Inr def \<Longrightarrow>
   truthyId (referenceOf def) = None \<Longrightarrow>
   fetchSignature d opcode scope arity v = Inl (SignatureNotFound opcode)"
  by (simp add: fetchSignature_def)

text \<open>
  Claim C3. An operator that is neither a builtin nor resolved by the lookup makes
  \<open>fetchSignature\<close> throw (\<open>fetchSignature_unresolved\<close>); it never returns the \<open>Left\<close> that
  \<open>exitApp\<close> would record as an error (\<open>fetchSignature_never_left\<close>). For
  \<open>unknownOperatorModule\<close> the whole call ends with the thrown error and returns no error map.
\<close>

theorem unresolved_signature_is_thrown:
  "inferEffects specCollaborators builtins [''m'' \<mapsto> []] unknownOperatorModule
     = Inl (SignatureNotFound ''f'')"
  by (simp add: visitor_defs instance_defs scenario_defs unknownOperatorModule_def)

section \<open>Let-in expressions\<close>

text \<open>
  Claim C6 fails as stated: in \<open>letModule\<close>, where \<open>x\<close> is a lambda parameter, the use of \<open>y\<close>
  (node 3) gets a fresh instance \<open>v0\<close> of the effect of \<open>x\<close>, and the use of \<open>x\<close> (node 1) keeps
  the parameter's placeholder \<open>e_x_5\<close>.
\<close>

theorem let_transparency_counterexample:
  "inferEffects specCollaborators builtins [''m'' \<mapsto> letTable] letModule = Inr (Inr letEffects)
   \<and> getEffect letEffects 3 = Some (Quantified ''v0'')
   \<and> getEffect letEffects 1 = Some (Quantified ''e_x_5'')
   \<and> getEffect letEffects 3 \<noteq> getEffect letEffects 1"
  by (simp add: visitor_defs instance_defs scenario_defs letTable_def letModule_def letEffects_def)

text \<open>
  Claim C6, amended. When no error is recorded, \<open>exitLet\<close> stores under the let-in node what
  is stored for its trailing expression, unchanged, and records no error; when an error is
  recorded anywhere, it changes nothing. For \<open>val y = x\<close> followed by \<open>y\<close>, when the effect
  inferred for \<open>x\<close> has no quantified name (as for a state variable or a constant), the use
  of \<open>y\<close>, the use of \<open>x\<close> and the let-in node all have that effect.
\<close>

theorem let_transparency:
  assumes "errors v = []"
    and "getEffect (effects v) xid = Some ex"
    and "effectNames d ex = []"
    and "applySubstitution d [] ex = Inr ex"
    and "builtinSignatures v y = None"
    and "lookupCurrent d v y yuse = Inr (Some def)"
    and "kind def \<noteq> ''param''" and "kind def \<noteq> ''const''" and "kind def \<noteq> ''var''"
    and "truthyId (reference def) = Some yid"
  shows "(\<exists>v'. runCallbacks d
                [ExitOpDef yid (TntName xid x), ExitName yuse y, ExitLet l (TntName yuse y)] v = Inr v'
            \<and> getEffect (effects v') yuse = Some ex
            \<and> getEffect (effects v') xid = Some ex
            \<and> getEffect (effects v') l = Some ex
            \<and> errors v' = [])
    \<and> (errors w = [] \<longrightarrow>
          exitLet i body w
            = w\<lparr> effects := AList.update i (getEffect (effects w) (exId body)) (effects w) \<rparr>
          \<and> getEffect (effects (exitLet i body w)) i = getEffect (effects w) (exId body)
          \<and> errors (exitLet i body w) = [])
    \<and> (errors w \<noteq> [] \<longrightarrow> exitLet i body w = w)"
proof -
  define va where "va = v\<lparr> effects := AList.update yid (Some ex) (effects v) \<rparr>"
  have a: "exitOpDef yid (TntName xid x) v = va"
    using assms(2) by (simp add: exitOpDef_def va_def)
  have lk: "lookupCurrent d va y yuse = Inr (Some def)"
    using assms(6) by (cases "currentTable v") (simp_all add: lookupCurrent_def va_def)
  obtain ss where ss: "ss = (case compose d [] (substitutions v) of Inr s \<Rightarrow> s | Inl err \<Rightarrow> substitutions v)"
    by simp
  have ni: "newInstance d ex va = Inr (ex, va\<lparr> substitutions := ss \<rparr>)"
    using assms(3) assms(4) by (simp add: newInstance_def ss va_def split: sum.splits)
  have fs: "fetchSignature d y yuse 2 va = Inr (Inr ex, va\<lparr> substitutions := ss \<rparr>)"
    using assms(5) assms(10) lk ni
    by (simp add: fetchSignature_def referenceOf_def va_def hasEffect_update getEffect_update)
  define vb where "vb = va\<lparr> substitutions := ss, effects := AList.update yuse (Some ex) (effects va) \<rparr>"
  have b: "exitName d yuse y va = Inr vb"
    using lk assms(7-9) fs by (simp add: exitName_def vb_def)
  define vc where "vc = vb\<lparr> effects := AList.update l (Some ex) (effects vb) \<rparr>"
  have eb: "errors vb = []" using assms(1) by (simp add: vb_def va_def)
  have c: "exitLet l (TntName yuse y) vb = vc"
    using eb by (simp add: exitLet_def vc_def vb_def getEffect_update)
  have run: "runCallbacks d
        [ExitOpDef yid (TntName xid x), ExitName yuse y, ExitLet l (TntName yuse y)] v = Inr vc"
    by (simp add: a b c)
  have r: "getEffect (effects vc) yuse = Some ex" "getEffect (effects vc) xid = Some ex"
    "getEffect (effects vc) l = Some ex" "errors vc = []"
    using assms(1) assms(2) by (simp_all add: vc_def vb_def va_def getEffect_update)
  have g: "errors w = [] \<longrightarrow>
          exitLet i body w
            = w\<lparr> effects := AList.update i (getEffect (effects w) (exId body)) (effects w) \<rparr>
          \<and> getEffect (effects (exitLet i body w)) i = getEffect (effects w) (exId body)
          \<and> errors (exitLet i body w) = []"
    by (simp add: exitLet_def getEffect_update)
  have h: "errors w \<noteq> [] \<longrightarrow> exitLet i body w = w"
    by (simp add: exitLet_def)
  from run r g h show ?thesis by blast
qed

theorem let_transparency_witness:
  "\<exists>v'. runCallbacks specCollaborators
           [ExitOpDef 2 (TntName 1 ''x''), ExitName 3 ''y'', ExitLet 4 (TntName 3 ''y'')] afterX = Inr v'
      \<and> getEffect (effects v') 3 = Some readX
      \<and> getEffect (effects v') 1 = Some readX
      \<and> getEffect (effects v') 4 = Some readX
      \<and> errors v' = []"
proof -
  have h1: "errors afterX = []" by (simp add: afterX_def visitorIn_def newVisitor_def)
  have h2: "getEffect (effects afterX) 1 = Some readX" by (simp add: afterX_def getEffect_def)
  have h3: "effectNames specCollaborators readX = []"
    by (simp add: specCollaborators_def specEffectNames_def readX_def)
  have h4: "applySubstitution specCollaborators [] readX = Inr readX"
    by (simp add: specCollaborators_def readX_def chain_def)
  have h5: "builtinSignatures afterX ''y'' = None"
    by (simp add: afterX_def visitorIn_def newVisitor_def builtins_def)
  have h6: "lookupCurrent specCollaborators afterX ''y'' 3
      = Inr (Some \<lparr> kind = ''val'', defIdentifier = ''y'', reference = Some 2 \<rparr>)"
    by (simp add: lookupCurrent_def afterX_def visitorIn_def specCollaborators_def
        flatLookupValue_def varLetTable_def)
  have h7: "kind \<lparr> kind = ''val'', defIdentifier = ''y'', reference = Some 2 \<rparr> \<noteq> ''param''"
    and h8: "kind \<lparr> kind = ''val'', defIdentifier = ''y'', reference = Some 2 \<rparr> \<noteq> ''const''"
    and h9: "kind \<lparr> kind = ''val'', defIdentifier = ''y'', reference = Some 2 \<rparr> \<noteq> ''var''"
    and h10: "truthyId (reference \<lparr> kind = ''val'', defIdentifier = ''y'', reference = Some 2 \<rparr>) = Some 2"
    by (simp_all add: truthyId_def)
  from let_transparency [OF h1 h2 h3 h4 h5 h6 h7 h8 h9 h10, of "''x''" 4, THEN conjunct1]
  show ?thesis .
qed

end
